theory Spec2Isabelle
  imports Complex_Main "HOL-Library.Log_Nat"
begin

section \<open>Python values used by the conversion worker\<close>

text \<open>
  The worker of \<^verbatim>\<open>hd.py\<close> (class \<^verbatim>\<open>ConversionWorker\<close>) computes with Python
  integers (unbounded, type \<^typ>\<open>int\<close>), Python floats (IEEE 754 binary64) and strings.
  A finite double is represented by its exact value, a rational number; an arithmetic
  operation on doubles is the exact operation followed by \<open>fl\<close>, rounding to the
  nearest double, ties to even. Strings are lists of 8-bit characters, so the model speaks
  about ASCII text; the status texts of the source, which carry emoji, are a datatype.
\<close>

datatype py_exn =
    CalledProcessError int string
  | JSONDecodeError
  | KeyError string
  | TypeError
  | ValueError
  | AttributeError
  | ZeroDivisionError
  | OverflowError
  | UnicodeDecodeError

text \<open>
  A statement that may raise, followed by the rest of the block: the exception, if there
  is one, is the outcome of the whole.
\<close>

definition raising :: "py_exn + 'a \<Rightarrow> ('a \<Rightarrow> py_exn + 'b) \<Rightarrow> py_exn + 'b" where
  "raising m f = (case m of Inl e \<Rightarrow> Inl e | Inr x \<Rightarrow> f x)"

subsection \<open>Doubles\<close>

text \<open>Rounding a rational to the nearest integer, ties to the even one.\<close>

definition rne :: "rat \<Rightarrow> int" where
  "rne x = (let f = \<lfloor>x\<rfloor>; d = x - of_int f in
     if d < 1 / 2 then f else if 1 / 2 < d then f + 1 else if even f then f else f + 1)"

text \<open>\<open>flog2 x\<close> is the integer \<open>e\<close> with \<open>2\<^sup>e \<le> x < 2\<^sup>e\<^sup>+\<^sup>1\<close>, for positive \<open>x\<close>.\<close>

definition flog2 :: "rat \<Rightarrow> int" where
  "flog2 x = (if 1 \<le> x then bitlen \<lfloor>x\<rfloor> - 1 else - int (ceillog2 (nat \<lceil>1 / x\<rceil>)))"

text \<open>
  The unit in the last place of a double of magnitude \<open>x\<close> is \<open>2\<^sup>e\<close> with
  \<open>e = flog2 x - 52\<close> (53 significant bits), and never below \<open>2\<^sup>-\<^sup>1\<^sup>0\<^sup>7\<^sup>4\<close> (subnormals).
  A result of magnitude \<open>2\<^sup>1\<^sup>0\<^sup>2\<^sup>4\<close> or more is an overflow, which the operations below
  test where it can happen.
\<close>

definition ulp_exp :: "rat \<Rightarrow> int" where
  "ulp_exp x = max (flog2 \<bar>x\<bar> - 52) (- 1074)"

definition fl :: "rat \<Rightarrow> rat" where
  "fl x = (if x = 0 then 0
     else of_int (rne (x / (2 powi ulp_exp x))) * (2 powi ulp_exp x))"

text \<open>\<^verbatim>\<open>a / b\<close> on two Python integers: the correctly rounded quotient.\<close>

definition int_truediv :: "int \<Rightarrow> int \<Rightarrow> py_exn + rat" where
  "int_truediv a b =
     (if b = 0 then Inl ZeroDivisionError
      else let q = fl (of_int a / of_int b) in
        if 2 ^ 1024 \<le> \<bar>q\<bar> then Inl OverflowError else Inr q)"

text \<open>\<^verbatim>\<open>int(x)\<close> on a finite double: truncation towards zero.\<close>

definition int_of_float :: "rat \<Rightarrow> int" where
  "int_of_float x = (if 0 \<le> x then \<lfloor>x\<rfloor> else \<lceil>x\<rceil>)"

subsection \<open>Formatting integers\<close>

definition digit_char :: "nat \<Rightarrow> char" where
  "digit_char d = ''0123456789'' ! d"

fun digits10 :: "nat \<Rightarrow> string" where
  "digits10 n = (if n < 10 then [digit_char n] else digits10 (n div 10) @ [digit_char (n mod 10)])"

declare digits10.simps [simp del]

text \<open>\<^verbatim>\<open>str(n)\<close>, which is what an f-string writes for an integer.\<close>

definition str_int :: "int \<Rightarrow> string" where
  "str_int n = (if n < 0 then CHR ''-'' # digits10 (nat (- n)) else digits10 (nat n))"

section \<open>Geometry: lines 64--67 and 80--89 of \<^verbatim>\<open>run\<close>\<close>

record video_metadata =
  width :: int
  height :: int
  rotation :: int

text \<open>
  \<^verbatim>\<open>ratio_map\<close>. Each entry holds the double the source computes (\<^verbatim>\<open>16/9\<close>,
  \<^verbatim>\<open>9/16\<close>, \<^verbatim>\<open>1.0\<close>, \<^verbatim>\<open>19.5/9\<close>) together with the text Python's \<^verbatim>\<open>repr\<close>
  gives for it, which is what the f-strings of line 88 interpolate.
\<close>

definition ratio_map :: "(string \<times> rat \<times> string) list" where
  "ratio_map =
     [(''Crop to 16:9 (Widescreen)'', fl (16 / 9), ''1.7777777777777777''),
      (''Crop to 9:16 (Tall/Story)'', fl (9 / 16), ''0.5625''),
      (''Crop to 1:1 (Square)'', 1, ''1.0''),
      (''Crop to 19.5:9 (Modern Phone)'', fl ((39 / 2) / 9), ''2.1666666666666665'')]"

record geometry_plan =
  scale_filter :: string
  target_w :: int
  target_h :: int

text \<open>Line 80: the dimensions after the rotation tag is taken into account.\<close>

definition effective_dims :: "video_metadata \<Rightarrow> int \<times> int" where
  "effective_dims metadata =
     (if rotation metadata \<in> set [90, 270] then (height metadata, width metadata)
      else (width metadata, height metadata))"

text \<open>Lines 82--83.\<close>

definition pad_target :: "int \<Rightarrow> int \<Rightarrow> int \<times> int" where
  "pad_target w h = (if w \<ge> h then (1280, 720) else (720, 1280))"

definition pad_filter :: "int \<Rightarrow> int \<Rightarrow> string" where
  "pad_filter tw th =
     ''scale=w='' @ str_int tw @ '':h='' @ str_int th @
     '':force_original_aspect_ratio=decrease,pad='' @ str_int tw @ '':'' @ str_int th @
     '':(ow-iw)/2:(oh-ih)/2:color=black''"

text \<open>Line 87.\<close>

definition crop_target :: "rat \<Rightarrow> int \<times> int" where
  "crop_target target_ar =
     (if target_ar \<ge> 1 then (1280, int_of_float (fl (1280 / target_ar)))
      else (int_of_float (fl (1280 * target_ar)), 1280))"

text \<open>Line 88.\<close>

definition crop_filter :: "rat \<Rightarrow> rat \<Rightarrow> string \<Rightarrow> string" where
  "crop_filter input_ar target_ar target_repr =
     (if input_ar > target_ar then ''crop=ih*'' @ target_repr @ '':ih''
      else ''crop=iw:iw/'' @ target_repr)"

text \<open>
  Lines 81--89 for effective dimensions \<open>w\<close> and \<open>h\<close>. The lookup in \<^verbatim>\<open>ratio_map\<close>
  and the division \<^verbatim>\<open>width / height\<close> can raise; neither is inside a \<^verbatim>\<open>try\<close>.
\<close>

definition plan_geometry :: "string \<Rightarrow> int \<Rightarrow> int \<Rightarrow> py_exn + geometry_plan" where
  "plan_geometry selected_ratio_str w h =
     (if selected_ratio_str = ''Keep Original (Pad)'' then
        (case pad_target w h of (tw, th) \<Rightarrow>
           Inr \<lparr>scale_filter = pad_filter tw th, target_w = tw, target_h = th\<rparr>)
      else
        (case map_of ratio_map selected_ratio_str of
           None \<Rightarrow> Inl (KeyError selected_ratio_str)
         | Some (target_ar, target_repr) \<Rightarrow>
             (case int_truediv w h of
                Inl e \<Rightarrow> Inl e
              | Inr input_ar \<Rightarrow>
                  (case crop_target target_ar of (tw, th) \<Rightarrow>
                     Inr \<lparr>scale_filter = crop_filter input_ar target_ar target_repr @
                            '',scale='' @ str_int tw @ '':'' @ str_int th,
                          target_w = tw, target_h = th\<rparr>))))"

section \<open>The probe: \<^verbatim>\<open>get_video_metadata\<close>\<close>

text \<open>
  What \<^verbatim>\<open>json.loads\<close> returns. A dict is the list of its items, the keys distinct;
  \<open>JInfinity\<close> stands for both infinities.
\<close>

datatype json =
    JNull
  | JBool bool
  | JInt int
  | JFloat rat
  | JNaN
  | JInfinity
  | JStr string
  | JList "json list"
  | JObj "(string \<times> json) list"

subsection \<open>\<^verbatim>\<open>int(...)\<close>\<close>

text \<open>
  \<^verbatim>\<open>int(s)\<close> on a string: surrounding white space is dropped, a sign may follow, then
  decimal digits, where single underscores may stand between two digits. The bound that
  recent interpreters put on the number of digits (4300 unless configured) is left out.
\<close>

definition is_space :: "char \<Rightarrow> bool" where
  "is_space c = (of_char c \<in> set [9, 10, 11, 12, 13, 32 :: nat])"

definition is_digit :: "char \<Rightarrow> bool" where
  "is_digit c = (c \<in> set ''0123456789'')"

definition digit_val :: "char \<Rightarrow> nat" where
  "digit_val c = of_char c - 48"

definition strip :: "string \<Rightarrow> string" where
  "strip s = rev (dropWhile is_space (rev (dropWhile is_space s)))"

fun digits_value :: "nat \<Rightarrow> string \<Rightarrow> nat option" where
  "digits_value acc [] = Some acc"
| "digits_value acc [c] = (if is_digit c then Some (10 * acc + digit_val c) else None)"
| "digits_value acc (c # d # cs) =
     (if is_digit c then digits_value (10 * acc + digit_val c) (d # cs)
      else if c = CHR ''_'' \<and> is_digit d then digits_value (10 * acc + digit_val d) cs
      else None)"

definition unsigned_value :: "string \<Rightarrow> nat option" where
  "unsigned_value s =
     (case s of [] \<Rightarrow> None
      | c # cs \<Rightarrow> if is_digit c then digits_value (digit_val c) cs else None)"

definition int_of_str :: "string \<Rightarrow> int option" where
  "int_of_str s =
     (case strip s of [] \<Rightarrow> None
      | c # cs \<Rightarrow>
          if c = CHR ''-'' then map_option (\<lambda>n. - int n) (unsigned_value cs)
          else if c = CHR ''+'' then map_option int (unsigned_value cs)
          else map_option int (unsigned_value (c # cs)))"

fun py_int :: "json \<Rightarrow> py_exn + int" where
  "py_int (JInt n) = Inr n"
| "py_int (JBool b) = Inr (if b then 1 else 0)"
| "py_int (JFloat x) = Inr (int_of_float x)"
| "py_int JNaN = Inl ValueError"
| "py_int JInfinity = Inl OverflowError"
| "py_int (JStr s) = (case int_of_str s of None \<Rightarrow> Inl ValueError | Some n \<Rightarrow> Inr n)"
| "py_int JNull = Inl TypeError"
| "py_int (JList xs) = Inl TypeError"
| "py_int (JObj kvs) = Inl TypeError"

subsection \<open>Subscripts, \<^verbatim>\<open>.get\<close> and iteration\<close>

text \<open>\<^verbatim>\<open>v[k]\<close> with a string key.\<close>

fun subscript :: "json \<Rightarrow> string \<Rightarrow> py_exn + json" where
  "subscript (JObj kvs) k = (case map_of kvs k of None \<Rightarrow> Inl (KeyError k) | Some v \<Rightarrow> Inr v)"
| "subscript v k = Inl TypeError"

text \<open>\<^verbatim>\<open>v.get(k, d)\<close>: only a dict has the method.\<close>

fun dict_get :: "json \<Rightarrow> string \<Rightarrow> json \<Rightarrow> py_exn + json" where
  "dict_get (JObj kvs) k d = Inr (case map_of kvs k of None \<Rightarrow> d | Some v \<Rightarrow> v)"
| "dict_get v k d = Inl AttributeError"

text \<open>\<^verbatim>\<open>for s in v\<close>: a dict yields its keys, a string its characters.\<close>

fun iterate :: "json \<Rightarrow> py_exn + json list" where
  "iterate (JList xs) = Inr xs"
| "iterate (JObj kvs) = Inr (map (\<lambda>kv. JStr (fst kv)) kvs)"
| "iterate (JStr s) = Inr (map (\<lambda>c. JStr [c]) s)"
| "iterate v = Inl TypeError"

text \<open>
  Line 51: \<^verbatim>\<open>next((s for s in ... if s['codec_type'] == 'video'), None)\<close>. The generator
  is lazy: streams after the first video stream are not looked at.
\<close>

fun first_video :: "json list \<Rightarrow> py_exn + json option" where
  "first_video [] = Inr None"
| "first_video (s # ss) =
     (case subscript s ''codec_type'' of
        Inl e \<Rightarrow> Inl e
      | Inr t \<Rightarrow> if t = JStr ''video'' then Inr (Some s) else first_video ss)"

subsection \<open>Lines 51--55\<close>

text \<open>Line 51: the first stream of kind video, \<open>None\<close> when there is none.\<close>

definition find_video_stream :: "json \<Rightarrow> py_exn + json option" where
  "find_video_stream metadata =
     raising (subscript metadata ''streams'') (\<lambda>streams.
     raising (iterate streams) first_video)"

text \<open>Line 54: the argument of \<^verbatim>\<open>int\<close>, \<^verbatim>\<open>video_stream.get('tags', {}).get('rotate', 0)\<close>.\<close>

definition rotate_tag :: "json \<Rightarrow> py_exn + json" where
  "rotate_tag video_stream =
     raising (dict_get video_stream ''tags'' (JObj [])) (\<lambda>tags.
       dict_get tags ''rotate'' (JInt 0))"

text \<open>Lines 53--55.\<close>

definition stream_metadata :: "json \<Rightarrow> py_exn + video_metadata" where
  "stream_metadata video_stream =
     raising (subscript video_stream ''width'') (\<lambda>wv.
     raising (py_int wv) (\<lambda>w.
     raising (subscript video_stream ''height'') (\<lambda>hv.
     raising (py_int hv) (\<lambda>h.
     raising (rotate_tag video_stream) (\<lambda>rv.
     raising (py_int rv) (\<lambda>r.
       Inr \<lparr>width = w, height = h, rotation = r\<rparr>))))))"

text \<open>
  The statements of the \<^verbatim>\<open>try\<close> block after \<^verbatim>\<open>json.loads\<close>; \<open>Inr None\<close> is the
  early return of line 52.
\<close>

definition read_metadata :: "json \<Rightarrow> py_exn + video_metadata option" where
  "read_metadata metadata =
     raising (find_video_stream metadata) (\<lambda>found.
       (case found of
          None \<Rightarrow> Inr None
        | Some video_stream \<Rightarrow>
            raising (stream_metadata video_stream) (\<lambda>m. Inr (Some m))))"

subsection \<open>Paths\<close>

text \<open>\<^verbatim>\<open>os.path.basename\<close> and \<^verbatim>\<open>os.path.splitext\<close> on a POSIX host.\<close>

definition basename :: "string \<Rightarrow> string" where
  "basename p = rev (takeWhile (\<lambda>c. c \<noteq> CHR ''/'') (rev p))"

definition splitext :: "string \<Rightarrow> string \<times> string" where
  "splitext p =
     (let name = basename p;
          dir = take (length p - length name) p;
          ext = rev (takeWhile (\<lambda>c. c \<noteq> CHR ''.'') (rev name));
          stem = take (length name - length ext - 1) name
      in if CHR ''.'' \<in> set name \<and> (\<exists>c \<in> set stem. c \<noteq> CHR ''.'')
         then (dir @ stem, CHR ''.'' # ext) else (p, []))"

subsection \<open>The external processes\<close>

text \<open>
  What \<^verbatim>\<open>subprocess.run(..., capture_output=True, text=True)\<close> observes of a process
  that ran to its end and whose output is text: the return code and the diagnostic output.
  For the probe, \<open>stdout_json\<close> is \<^verbatim>\<open>json.loads(result.stdout)\<close>, and \<open>None\<close> when
  the output is not JSON. The start-up check of the application has found both tools, so
  a tool that cannot be started is not a case of the model.
\<close>

record process_result =
  returncode :: int
  stderr :: string

record probe_result = process_result +
  stdout_json :: "json option"

text \<open>
  An encoder process that ran to its end. With \<^verbatim>\<open>text=True\<close> the captured output is
  decoded before \<^verbatim>\<open>subprocess.run\<close> returns or looks at the return code: \<open>Decoded\<close>
  holds the result when that works, \<open>Undecodable rc\<close> is a process that ended with the
  return code \<open>rc\<close> and wrote bytes that are not text in the encoding in use.
\<close>

datatype subprocess_outcome = Decoded process_result | Undecodable int

definition exit_status :: "subprocess_outcome \<Rightarrow> int" where
  "exit_status out = (case out of Decoded r \<Rightarrow> returncode r | Undecodable rc \<Rightarrow> rc)"

text \<open>
  The exception that \<^verbatim>\<open>subprocess.run(..., check=True, text=True)\<close> raises, if any: a
  \<^verbatim>\<open>UnicodeDecodeError\<close> for output that cannot be decoded, whatever the return code, and
  a \<^verbatim>\<open>CalledProcessError\<close> for decoded output with a return code other than 0.
\<close>

definition subprocess_run :: "subprocess_outcome \<Rightarrow> py_exn option" where
  "subprocess_run out =
     (case out of
        Undecodable rc \<Rightarrow> Some UnicodeDecodeError
      | Decoded r \<Rightarrow>
          if returncode r \<noteq> 0 then Some (CalledProcessError (returncode r) (stderr r))
          else None)"

text \<open>
  The second argument of \<^verbatim>\<open>show_error\<close>. \<open>No_video_stream\<close> is the text
  \<^verbatim>\<open>No video stream found.\<close>; \<open>Metadata_failure name e\<close> is the text of line 57 for
  the file's base name and the exception, followed for a \<^verbatim>\<open>CalledProcessError\<close> by the
  probe's diagnostic output (line 59); \<open>Ffmpeg_error name err\<close> is the text of line 110
  with the encoder's diagnostic output. None of the three texts is empty.
\<close>

datatype error_text =
    No_video_stream
  | Metadata_failure string py_exn
  | Ffmpeg_error string string

definition ffprobe_command :: "string \<Rightarrow> string list" where
  "ffprobe_command file_path =
     [''ffprobe'', ''-v'', ''quiet'', ''-print_format'', ''json'', ''-show_streams'', file_path]"

text \<open>
  Lines 48--60. The method returns a pair of which exactly one component is \<^verbatim>\<open>None\<close>;
  the caller tests the second one, a non-empty text when it is there. \<open>Inl\<close> stands for
  \<^verbatim>\<open>(None, error)\<close> and \<open>Inr\<close> for \<^verbatim>\<open>(metadata, None)\<close>. The handler of line 56
  catches every exception, also one that \<^verbatim>\<open>subprocess.run\<close> raises for probe output
  that cannot be decoded: the analysis fails then as it does for the failures listed
  here, and the record of the probe has no case of its own for it.
\<close>

definition get_video_metadata :: "string \<Rightarrow> probe_result \<Rightarrow> error_text + video_metadata" where
  "get_video_metadata file_path result =
     (if returncode result \<noteq> 0 then
        Inl (Metadata_failure (basename file_path)
               (CalledProcessError (returncode result) (stderr result)))
      else
        (case stdout_json result of
           None \<Rightarrow> Inl (Metadata_failure (basename file_path) JSONDecodeError)
         | Some metadata \<Rightarrow>
             (case read_metadata metadata of
                Inl e \<Rightarrow> Inl (Metadata_failure (basename file_path) e)
              | Inr None \<Rightarrow> Inl No_video_stream
              | Inr (Some m) \<Rightarrow> Inr m)))"

section \<open>The batch: \<^verbatim>\<open>run\<close>\<close>

text \<open>
  The second argument of \<^verbatim>\<open>update_status\<close>: the six texts of lines 73, 76, 103, 105,
  107 and 109, in this order.
\<close>

datatype status = Analyzing | Analyze_Failed | Pass_1 | Pass_2 | Done | Error

text \<open>
  What the worker does that can be seen from outside: the four signals, the processes it
  starts, and the log files it removes.
\<close>

datatype event =
    Update_status string status
  | Update_progress int
  | Show_error string error_text
  | Finished
  | Subprocess_run "string list"
  | Os_remove string

text \<open>
  What one file of \<^verbatim>\<open>files_to_process\<close> meets while it is processed: the value of
  \<^verbatim>\<open>self.is_running\<close> when the loop arrives at it, the outcomes of the three processes,
  and the log files that exist when the \<^verbatim>\<open>finally\<close> block looks for them.
\<close>

record file_run =
  file_path :: string
  is_running :: bool
  probe :: probe_result
  pass_1 :: subprocess_outcome
  pass_2 :: subprocess_outcome
  existing_logs :: "string list"

text \<open>Lines 94--100; \<^verbatim>\<open>os.devnull\<close> is \<^verbatim>\<open>/dev/null\<close>.\<close>

definition common_args :: "string \<Rightarrow> string list" where
  "common_args filter_text =
     [''-vf'', filter_text, ''-c:v'', ''libx264'', ''-preset'', ''veryslow'', ''-tune'', ''film'',
      ''-profile:v'', ''high'', ''-level'', ''3.0'', ''-b:v'', ''3100k'', ''-maxrate'', ''3200k'',
      ''-bufsize'', ''6400k'', ''-pix_fmt'', ''yuv420p'', ''-r'', ''60'']"

definition first_pass_cmd :: "string \<Rightarrow> string \<Rightarrow> string list" where
  "first_pass_cmd path filter_text =
     [''ffmpeg'', ''-y'', ''-i'', path] @ common_args filter_text @
     [''-an'', ''-pass'', ''1'', ''-f'', ''mp4'', ''/dev/null'']"

definition second_pass_cmd :: "string \<Rightarrow> string \<Rightarrow> string \<Rightarrow> string list" where
  "second_pass_cmd path filter_text output_file =
     [''ffmpeg'', ''-y'', ''-i'', path] @ common_args filter_text @
     [''-c:a'', ''aac'', ''-b:a'', ''128k'', ''-movflags'', ''+faststart'', ''-pass'', ''2'',
      output_file]"

text \<open>Line 72, with line 71.\<close>

definition output_file_of :: "string \<Rightarrow> string" where
  "output_file_of path = fst (splitext path) @ ''_whatsapp.mp4''"

text \<open>
  Line 112: \<^verbatim>\<open>int(((i + 1) / total_files) * 100)\<close>, a division of integers, a product
  of doubles and a truncation.
\<close>

definition progress :: "nat \<Rightarrow> nat \<Rightarrow> py_exn + int" where
  "progress i total_files =
     raising (int_truediv (int i + 1) (int total_files)) (\<lambda>q.
       let p = fl (q * 100) in
       if 2 ^ 1024 \<le> \<bar>p\<bar> then Inl OverflowError else Inr (int_of_float p))"

text \<open>
  Lines 108--110: the handler catches a \<^verbatim>\<open>CalledProcessError\<close> and nothing else. The
  result is what it emits and the exception that goes on, if any.
\<close>

fun handler :: "string \<Rightarrow> py_exn \<Rightarrow> event list \<times> py_exn option" where
  "handler path (CalledProcessError rc err) =
     ([Update_status path Error,
       Show_error ''Conversion Error'' (Ffmpeg_error (basename path) err)], None)"
| "handler path e = ([], Some e)"

text \<open>
  Lines 102--110: the \<^verbatim>\<open>try\<close> block and its handler; the events, and the exception
  that the handler did not catch, if any.
\<close>

definition encode :: "file_run \<Rightarrow> string \<Rightarrow> event list \<times> py_exn option" where
  "encode f filter_text =
     (let first = [Update_status (file_path f) Pass_1,
                   Subprocess_run (first_pass_cmd (file_path f) filter_text)];
          second = [Update_status (file_path f) Pass_2,
                    Subprocess_run
                      (second_pass_cmd (file_path f) filter_text
                         (output_file_of (file_path f)))]
      in case subprocess_run (pass_1 f) of
           Some e \<Rightarrow> (first @ fst (handler (file_path f) e), snd (handler (file_path f) e))
         | None \<Rightarrow>
             (case subprocess_run (pass_2 f) of
                Some e \<Rightarrow>
                  (first @ second @ fst (handler (file_path f) e),
                   snd (handler (file_path f) e))
              | None \<Rightarrow> (first @ second @ [Update_status (file_path f) Done], None)))"

text \<open>Lines 114--117; an error of \<^verbatim>\<open>os.remove\<close> is swallowed.\<close>

definition remove_logs :: "file_run \<Rightarrow> event list" where
  "remove_logs f =
     map Os_remove
       (filter (\<lambda>name. name \<in> set (existing_logs f))
          [''ffmpeg2pass-0.log'', ''ffmpeg2pass-0.log.mbtree''])"

text \<open>
  Lines 71--117, the body of the loop for the file of index \<open>i\<close>: the events, and the
  exception that leaves the body, if any. Without one the loop goes on with the next file.
  The \<^verbatim>\<open>finally\<close> block of lines 111--117 runs whether the encoder calls returned or
  raised; an exception that the handler did not catch goes on after it.
\<close>

definition process_file :: "string \<Rightarrow> nat \<Rightarrow> nat \<Rightarrow> file_run \<Rightarrow> event list \<times> py_exn option" where
  "process_file selected_ratio_str total_files i f =
     (let analysis = [Update_status (file_path f) Analyzing,
                      Subprocess_run (ffprobe_command (file_path f))]
      in case get_video_metadata (file_path f) (probe f) of
           Inl error \<Rightarrow>
             (analysis @ [Update_status (file_path f) Analyze_Failed,
                          Show_error ''Analysis Error'' error], None)
         | Inr metadata \<Rightarrow>
             (case plan_geometry selected_ratio_str
                     (fst (effective_dims metadata)) (snd (effective_dims metadata)) of
                Inl e \<Rightarrow> (analysis, Some e)
              | Inr plan \<Rightarrow>
                  (case progress i total_files of
                     Inl e \<Rightarrow> (analysis @ fst (encode f (scale_filter plan)), Some e)
                   | Inr p \<Rightarrow>
                       (analysis @ fst (encode f (scale_filter plan)) @
                        [Update_progress p] @ remove_logs f,
                        snd (encode f (scale_filter plan))))))"

text \<open>How the loop of line 69 ends.\<close>

datatype loop_end = Exhausted | Break | Raised py_exn

fun prepend :: "event list \<Rightarrow> event list \<times> loop_end \<Rightarrow> event list \<times> loop_end" where
  "prepend evs (evs', r) = (evs @ evs', r)"

text \<open>Lines 69--117 from index \<open>i\<close> on.\<close>

fun run_loop :: "string \<Rightarrow> nat \<Rightarrow> nat \<Rightarrow> file_run list \<Rightarrow> event list \<times> loop_end" where
  "run_loop selected_ratio_str total_files i [] = ([], Exhausted)"
| "run_loop selected_ratio_str total_files i (f # fs) =
     (if \<not> is_running f then ([], Break)
      else
        (case process_file selected_ratio_str total_files i f of
           (evs, Some e) \<Rightarrow> (evs, Raised e)
         | (evs, None) \<Rightarrow> prepend evs (run_loop selected_ratio_str total_files (Suc i) fs)))"

text \<open>Line 118 is reached unless an exception has left the loop.\<close>

fun emit_finished :: "event list \<times> loop_end \<Rightarrow> event list \<times> py_exn option" where
  "emit_finished (evs, Raised e) = (evs, Some e)"
| "emit_finished (evs, r) = (evs @ [Finished], None)"

definition run :: "string \<Rightarrow> file_run list \<Rightarrow> event list \<times> py_exn option" where
  "run selected_ratio_str files_to_process =
     emit_finished (run_loop selected_ratio_str (length files_to_process) 0 files_to_process)"

text \<open>The values of the progress signal in a trace, in the order of emission.\<close>

fun progress_values :: "event list \<Rightarrow> int list" where
  "progress_values [] = []"
| "progress_values (Update_progress p # evs) = p # progress_values evs"
| "progress_values (e # evs) = progress_values evs"

section \<open>The specification's formulas\<close>

text \<open>
  The target dimensions of a crop mode as the specification words them:
  \<open>(1280, round(1280/R))\<close> for \<open>R \<ge> 1\<close> and \<open>(round(1280\<cdot>R), 1280)\<close> otherwise.
\<close>

definition spec_crop_target :: "rat \<Rightarrow> int \<times> int" where
  "spec_crop_target R =
     (if R \<ge> 1 then (1280, round (1280 / R)) else (round (1280 * R), 1280))"

text \<open>
  The batch progress after file \<open>k\<close> of \<open>n\<close> as the specification words it:
  \<open>round(100\<cdot>k/n)\<close>.
\<close>

definition spec_progress :: "nat \<Rightarrow> nat \<Rightarrow> int" where
  "spec_progress k n = round (100 * of_nat k / (of_nat n :: rat))"

section \<open>Sample inputs\<close>

text \<open>A probe output with one video stream of the given size and no tags.\<close>

definition video_probe :: "int \<Rightarrow> int \<Rightarrow> probe_result" where
  "video_probe w h =
     \<lparr>returncode = 0, stderr = [],
      stdout_json = Some (JObj [(''streams'',
        JList [JObj [(''codec_type'', JStr ''video''), (''width'', JInt w),
                     (''height'', JInt h)]])])\<rparr>"

text \<open>A probe output with an audio stream only.\<close>

definition audio_probe :: probe_result where
  "audio_probe =
     \<lparr>returncode = 0, stderr = [],
      stdout_json = Some (JObj [(''streams'', JList [JObj [(''codec_type'', JStr ''audio'')]])])\<rparr>"

text \<open>An encoder call that ended with the given return code and diagnostic text.\<close>

definition exited :: "int \<Rightarrow> string \<Rightarrow> subprocess_outcome" where
  "exited rc err = Decoded \<lparr>returncode = rc, stderr = err\<rparr>"

text \<open>A file that the loop reaches with \<^verbatim>\<open>is_running\<close> set, and no log file left behind.\<close>

definition clip ::
  "string \<Rightarrow> probe_result \<Rightarrow> subprocess_outcome \<Rightarrow> subprocess_outcome \<Rightarrow> file_run" where
  "clip path pr p1 p2 =
     \<lparr>file_path = path, is_running = True, probe = pr, pass_1 = p1, pass_2 = p2,
      existing_logs = []\<rparr>"

section \<open>Properties of the rounding to doubles\<close>

lemma rne_bounds: "of_int (rne x) \<le> x + 1 / 2" "x - 1 / 2 \<le> of_int (rne x)"
  unfolding rne_def Let_def by (auto; linarith)+

lemma rne_of_int: "rne (of_int n) = n"
  by (simp add: rne_def)

lemma rne_mono: "x \<le> y \<Longrightarrow> rne x \<le> rne y"
proof -
  assume xy: "x \<le> y"
  have fx: "\<lfloor>x\<rfloor> \<le> \<lfloor>y\<rfloor>" using xy by (rule floor_mono)
  show ?thesis
  proof (cases "\<lfloor>x\<rfloor> = \<lfloor>y\<rfloor>")
    case True
    with xy show ?thesis unfolding rne_def Let_def by auto
  next
    case False
    with fx have "\<lfloor>x\<rfloor> + 1 \<le> \<lfloor>y\<rfloor>" by simp
    moreover have "rne x \<le> \<lfloor>x\<rfloor> + 1" unfolding rne_def Let_def by auto
    moreover have "\<lfloor>y\<rfloor> \<le> rne y" unfolding rne_def Let_def by auto
    ultimately show ?thesis by linarith
  qed
qed

lemma flog2_lower: assumes "0 < x" shows "2 powi flog2 x \<le> x"
proof (cases "1 \<le> x")
  case True
  then have n: "0 < \<lfloor>x\<rfloor>" by simp
  from bitlen_bounds [OF n] have "2 ^ nat (bitlen \<lfloor>x\<rfloor> - 1) \<le> \<lfloor>x\<rfloor>" by simp
  then have "(of_int (2 ^ nat (bitlen \<lfloor>x\<rfloor> - 1)) :: rat) \<le> of_int \<lfloor>x\<rfloor>"
    by (simp only: of_int_le_iff)
  also have "\<dots> \<le> x" by simp
  finally have "(2 :: rat) ^ nat (bitlen \<lfloor>x\<rfloor> - 1) \<le> x" by simp
  moreover have "0 \<le> bitlen \<lfloor>x\<rfloor> - 1" using n by (simp add: bitlen_alt_def)
  ultimately show ?thesis using True by (simp add: flog2_def power_int_nonneg_exp)
next
  case False
  define n where "n = nat \<lceil>1 / x\<rceil>"
  have "1 / x \<le> of_int \<lceil>1 / x\<rceil>" by simp
  also have "\<dots> = of_nat n" using assms by (simp add: n_def)
  also have "(of_nat n :: rat) \<le> of_nat (2 ^ ceillog2 n)"
    using le_two_power_ceillog2 [of n] by (simp only: of_nat_le_iff)
  finally have "1 / x \<le> 2 ^ ceillog2 n" by simp
  then have "1 / 2 ^ ceillog2 n \<le> x" using assms
    by (simp add: field_simps)
  then show ?thesis using False
    by (simp add: flog2_def n_def power_int_minus_divide)
qed

lemma flog2_upper: assumes "0 < x" shows "x < 2 powi (flog2 x + 1)"
proof (cases "1 \<le> x")
  case True
  then have n: "0 < \<lfloor>x\<rfloor>" by simp
  from bitlen_bounds [OF n] have "\<lfloor>x\<rfloor> + 1 \<le> 2 ^ nat (bitlen \<lfloor>x\<rfloor>)" by simp
  then have "(of_int (\<lfloor>x\<rfloor> + 1) :: rat) \<le> of_int (2 ^ nat (bitlen \<lfloor>x\<rfloor>))"
    by (simp only: of_int_le_iff)
  moreover have "x < of_int (\<lfloor>x\<rfloor> + 1)" by linarith
  ultimately have "x < 2 ^ nat (bitlen \<lfloor>x\<rfloor>)" by simp
  then show ?thesis using True by (simp add: flog2_def power_int_nonneg_exp bitlen_nonneg)
next
  case False
  define n where "n = nat \<lceil>1 / x\<rceil>"
  define k where "k = ceillog2 n"
  have y: "1 < 1 / x" using assms False by simp
  then have c2: "2 \<le> \<lceil>1 / x\<rceil>" by linarith
  then have nc: "int n = \<lceil>1 / x\<rceil>" unfolding n_def by simp
  with c2 have n2: "2 \<le> n" by linarith
  have "n \<le> 2 ^ k" unfolding k_def by (rule le_two_power_ceillog2)
  with n2 have kpos: "0 < k" by (cases k) simp_all
  from two_power_ceillog2_gt [of n] n2 have "2 ^ k < 2 * n" by (simp add: k_def)
  then have "2 * 2 ^ (k - 1) < 2 * n" using kpos by (cases k) simp_all
  then have "2 ^ (k - 1) < n" by simp
  then have "int (2 ^ (k - 1)) < int n" by (simp only: of_nat_less_iff)
  then have "(2::int) ^ (k - 1) \<le> \<lceil>1 / x\<rceil> - 1" using nc by simp
  then have "(of_int (2 ^ (k - 1)) :: rat) \<le> of_int (\<lceil>1 / x\<rceil> - 1)" by (simp only: of_int_le_iff)
  also have "\<dots> < 1 / x" by linarith
  finally have "2 ^ (k - 1) < 1 / x" by simp
  then have "x * 2 ^ (k - 1) < 1" using assms by (simp add: field_simps)
  then have "x < 1 / 2 ^ (k - 1)" by (simp add: field_simps)
  also have "\<dots> = 2 powi (- int k + 1)"
  proof -
    have "- int k + 1 = - int (k - 1)" using kpos by simp
    then show ?thesis by (simp only: power_int_minus_divide power_int_of_nat)
  qed
  finally show ?thesis using False by (simp add: flog2_def n_def k_def)
qed

lemma flog2_unique:
  assumes "0 < x" "2 powi e \<le> x" "x < 2 powi (e + 1)"
  shows "flog2 x = e"
proof (rule antisym)
  show "flog2 x \<le> e"
  proof (rule ccontr)
    assume "\<not> flog2 x \<le> e"
    then have "e + 1 \<le> flog2 x" by simp
    then have "(2::rat) powi (e + 1) \<le> 2 powi flog2 x" by (simp add: power_int_increasing)
    also have "\<dots> \<le> x" using assms(1) by (rule flog2_lower)
    finally show False using assms(3) by simp
  qed
  show "e \<le> flog2 x"
  proof (rule ccontr)
    assume "\<not> e \<le> flog2 x"
    then have "flog2 x + 1 \<le> e" by simp
    then have "(2::rat) powi (flog2 x + 1) \<le> 2 powi e" by (simp add: power_int_increasing)
    also have "\<dots> \<le> x" by (rule assms(2))
    finally show False using flog2_upper [OF assms(1)] by simp
  qed
qed

lemma flog2_mono:
  assumes "0 < x" "x \<le> y"
  shows "flog2 x \<le> flog2 y"
proof (rule ccontr)
  assume "\<not> flog2 x \<le> flog2 y"
  then have "flog2 y + 1 \<le> flog2 x" by simp
  then have "(2::rat) powi (flog2 y + 1) \<le> 2 powi flog2 x" by (simp add: power_int_increasing)
  also have "\<dots> \<le> x" using assms(1) by (rule flog2_lower)
  also have "\<dots> \<le> y" by (rule assms(2))
  finally show False using flog2_upper [of y] assms by simp
qed

lemma ulp_exp_mono: "0 < x \<Longrightarrow> x \<le> y \<Longrightarrow> ulp_exp x \<le> ulp_exp y"
  using flog2_mono [of x y] by (simp add: ulp_exp_def)

lemma fl_pos_upper:
  assumes "0 < x"
  shows "fl x \<le> 2 powi (ulp_exp x + 53)"
proof -
  have p: "(0::rat) < 2 powi ulp_exp x" by (simp add: power_int_def)
  have "flog2 x + 1 \<le> ulp_exp x + 53" using assms by (simp add: ulp_exp_def)
  then have "(2::rat) powi (flog2 x + 1) \<le> 2 powi (ulp_exp x + 53)"
    by (simp add: power_int_increasing)
  with flog2_upper [OF assms] have "x \<le> 2 powi (ulp_exp x + 53)" by simp
  also have "\<dots> = 2 ^ 53 * 2 powi ulp_exp x" by (simp add: power_int_add)
  finally have "x / 2 powi ulp_exp x \<le> of_int (2 ^ 53)" using p by (simp add: field_simps)
  then have "rne (x / 2 powi ulp_exp x) \<le> rne (of_int (2 ^ 53))" by (rule rne_mono)
  then have "rne (x / 2 powi ulp_exp x) \<le> 2 ^ 53" by (simp only: rne_of_int)
  then have "(of_int (rne (x / 2 powi ulp_exp x)) :: rat) \<le> of_int (2 ^ 53)"
    by (simp only: of_int_le_iff)
  then have "of_int (rne (x / 2 powi ulp_exp x)) * 2 powi ulp_exp x \<le> of_int (2 ^ 53) * (2::rat) powi ulp_exp x"
    using p by (simp only: mult_le_cancel_right_pos)
  then show ?thesis using assms by (simp add: fl_def power_int_add)
qed

lemma fl_pos_lower:
  assumes "0 < x" "- 1074 < ulp_exp x"
  shows "2 powi (ulp_exp x + 52) \<le> fl x"
proof -
  have p: "(0::rat) < 2 powi ulp_exp x" by (simp add: power_int_def)
  have "ulp_exp x + 52 = flog2 x" using assms by (simp add: ulp_exp_def)
  with flog2_lower [OF assms(1)] have "2 powi (ulp_exp x + 52) \<le> x" by simp
  then have "2 ^ 52 * 2 powi ulp_exp x \<le> x" by (simp add: power_int_add)
  then have "of_int (2 ^ 52) \<le> x / 2 powi ulp_exp x" using p by (simp add: field_simps)
  then have "rne (of_int (2 ^ 52)) \<le> rne (x / 2 powi ulp_exp x)" by (rule rne_mono)
  then have "2 ^ 52 \<le> rne (x / 2 powi ulp_exp x)" by (simp only: rne_of_int)
  then have "(of_int (2 ^ 52) :: rat) \<le> of_int (rne (x / 2 powi ulp_exp x))"
    by (simp only: of_int_le_iff)
  then have "of_int (2 ^ 52) * 2 powi ulp_exp x \<le> of_int (rne (x / 2 powi ulp_exp x)) * (2::rat) powi ulp_exp x"
    using p by (simp only: mult_le_cancel_right_pos)
  then show ?thesis using assms by (simp add: fl_def power_int_add)
qed

lemma fl_mono_pos:
  assumes "0 < x" "x \<le> y"
  shows "fl x \<le> fl y"
proof -
  have ypos: "0 < y" using assms by simp
  have le: "ulp_exp x \<le> ulp_exp y" using assms by (rule ulp_exp_mono)
  show ?thesis
  proof (cases "ulp_exp x = ulp_exp y")
    case True
    have p: "(0::rat) < 2 powi ulp_exp y" by (simp add: power_int_def)
    have "x / 2 powi ulp_exp y \<le> y / 2 powi ulp_exp y" using assms p by (simp add: divide_right_mono)
    then have "rne (x / 2 powi ulp_exp y) \<le> rne (y / 2 powi ulp_exp y)" by (rule rne_mono)
    then have "(of_int (rne (x / 2 powi ulp_exp y)) :: rat) \<le> of_int (rne (y / 2 powi ulp_exp y))"
      by (simp only: of_int_le_iff)
    then have "of_int (rne (x / 2 powi ulp_exp y)) * 2 powi ulp_exp y
        \<le> of_int (rne (y / 2 powi ulp_exp y)) * (2::rat) powi ulp_exp y"
      using p by (simp only: mult_le_cancel_right_pos)
    then show ?thesis using assms ypos True by (simp add: fl_def)
  next
    case False
    with le have lt: "ulp_exp x + 1 \<le> ulp_exp y" by simp
    have "- 1074 \<le> ulp_exp x" by (simp add: ulp_exp_def)
    with lt have "- 1074 < ulp_exp y" by simp
    then have "2 powi (ulp_exp y + 52) \<le> fl y" using ypos by (simp add: fl_pos_lower)
    moreover have "fl x \<le> 2 powi (ulp_exp x + 53)" using assms(1) by (rule fl_pos_upper)
    moreover have "(2::rat) powi (ulp_exp x + 53) \<le> 2 powi (ulp_exp y + 52)"
      using lt by (simp add: power_int_increasing)
    ultimately show ?thesis by linarith
  qed
qed

lemma fl_nonneg: "0 \<le> x \<Longrightarrow> 0 \<le> fl x"
proof -
  assume x: "0 \<le> x"
  have p: "(0::rat) < 2 powi ulp_exp x" by (simp add: power_int_def)
  have "0 \<le> x / 2 powi ulp_exp x" using x p by simp
  then have "rne (of_int 0) \<le> rne (x / 2 powi ulp_exp x)" by (simp add: rne_mono)
  then have "0 \<le> rne (x / 2 powi ulp_exp x)" by (simp only: rne_of_int)
  then show ?thesis using p by (simp add: fl_def)
qed

lemma fl_zero: "fl 0 = 0"
  by (simp add: fl_def)

lemma fl_mono_nonneg:
  assumes "0 \<le> x" "x \<le> y"
  shows "fl x \<le> fl y"
proof (cases "x = 0")
  case True
  have "0 \<le> fl y" using assms by (simp add: fl_nonneg)
  with True show ?thesis by (simp only: fl_zero)
next
  case False
  with assms have "0 < x" by simp
  then show ?thesis using assms(2) by (rule fl_mono_pos)
qed

section \<open>The doubles of the program\<close>

lemma fl_16_9: "fl (16 / 9) = 2001599834386887 / 1125899906842624"
  by code_simp

lemma fl_9_16: "fl (9 / 16) = 9 / 16"
  by code_simp

lemma fl_13_6: "fl (13 / 6) = 4878899596318037 / 2251799813685248"
  by code_simp

lemma fl_1: "fl 1 = 1"
  by code_simp

lemma fl_100: "fl 100 = 100"
  by code_simp

lemma ratio_map_values:
  "ratio_map =
     [(''Crop to 16:9 (Widescreen)'', 2001599834386887 / 1125899906842624, ''1.7777777777777777''),
      (''Crop to 9:16 (Tall/Story)'', 9 / 16, ''0.5625''),
      (''Crop to 1:1 (Square)'', 1, ''1.0''),
      (''Crop to 19.5:9 (Modern Phone)'', 4878899596318037 / 2251799813685248,
       ''2.1666666666666665'')]"
  by (simp add: ratio_map_def fl_16_9 fl_9_16 fl_13_6)

text \<open>Each text of the table, read as a decimal fraction, rounds to the double beside it.\<close>

lemma ratio_map_repr:
  "fl (17777777777777777 / 10 ^ 16) = fl (16 / 9)"
  "fl (5625 / 10 ^ 4) = fl (9 / 16)"
  "fl (21666666666666665 / 10 ^ 16) = fl (39 / 2 / 9)"
  by code_simp+

lemma crop_target_16_9: "crop_target (2001599834386887 / 1125899906842624) = (1280, 720)"
  by code_simp

lemma crop_target_9_16: "crop_target (9 / 16) = (720, 1280)"
  by code_simp

lemma crop_target_1: "crop_target 1 = (1280, 1280)"
  by code_simp

lemma crop_target_13_6: "crop_target (4878899596318037 / 2251799813685248) = (1280, 590)"
  by code_simp

lemma int_truediv_1920_1080:
  "int_truediv 1920 1080 = Inr (2001599834386887 / 1125899906842624)"
  by (simp add: int_truediv_def fl_16_9)

lemma int_truediv_1080_1920: "int_truediv 1080 1920 = Inr (9 / 16)"
  by (simp add: int_truediv_def fl_9_16)

section \<open>Geometry\<close>

lemma str_int_1280: "str_int 1280 = ''1280''"
  by (simp add: str_int_def digits10.simps digit_char_def)

lemma str_int_720: "str_int 720 = ''720''"
  by (simp add: str_int_def digits10.simps digit_char_def)



text \<open>
  C7. In the mode \<^verbatim>\<open>Keep Original (Pad)\<close> the target is 1280 by 720 when the effective
  width is at least the effective height and 720 by 1280 otherwise. The filter is a
  \<^verbatim>\<open>scale\<close> to the target with \<^verbatim>\<open>force_original_aspect_ratio=decrease\<close> (fit inside the
  target, aspect ratio kept) followed by a \<^verbatim>\<open>pad\<close> to exactly the target, the picture
  at offset \<^verbatim>\<open>(ow-iw)/2:(oh-ih)/2\<close> (centred), the rest black.
\<close>

theorem pad_plan:
  "plan_geometry ''Keep Original (Pad)'' w h =
     Inr (if w \<ge> h
          then \<lparr>scale_filter = ''scale=w=1280:h=720:force_original_aspect_ratio=decrease,pad=1280:720:(ow-iw)/2:(oh-ih)/2:color=black'',
                target_w = 1280, target_h = 720\<rparr>
          else \<lparr>scale_filter = ''scale=w=720:h=1280:force_original_aspect_ratio=decrease,pad=720:1280:(ow-iw)/2:(oh-ih)/2:color=black'',
                target_w = 720, target_h = 1280\<rparr>)"
  by (simp add: plan_geometry_def pad_target_def pad_filter_def str_int_1280 str_int_720)

theorem pad_plan_witness:
  "plan_geometry ''Keep Original (Pad)''
     (fst (effective_dims \<lparr>width = 1080, height = 1920, rotation = 90\<rparr>))
     (snd (effective_dims \<lparr>width = 1080, height = 1920, rotation = 90\<rparr>)) =
   Inr \<lparr>scale_filter = ''scale=w=1280:h=720:force_original_aspect_ratio=decrease,pad=1280:720:(ow-iw)/2:(oh-ih)/2:color=black'',
        target_w = 1280, target_h = 720\<rparr> \<and>
   plan_geometry ''Keep Original (Pad)'' 1080 1920 =
   Inr \<lparr>scale_filter = ''scale=w=720:h=1280:force_original_aspect_ratio=decrease,pad=720:1280:(ow-iw)/2:(oh-ih)/2:color=black'',
        target_w = 720, target_h = 1280\<rparr>"
  using pad_plan [of 1080 1920] pad_plan [of 1920 1080]
  by (simp add: effective_dims_def)

lemma str_int_590: "str_int 590 = ''590''"
  by (simp add: str_int_def digits10.simps digit_char_def)

lemma ratio_map_cases:
  assumes "map_of ratio_map sel = Some (R, s)"
  shows "sel = ''Crop to 16:9 (Widescreen)'' \<and> R = 2001599834386887 / 1125899906842624 \<and>
           s = ''1.7777777777777777''
       \<or> sel = ''Crop to 9:16 (Tall/Story)'' \<and> R = 9 / 16 \<and> s = ''0.5625''
       \<or> sel = ''Crop to 1:1 (Square)'' \<and> R = 1 \<and> s = ''1.0''
       \<or> sel = ''Crop to 19.5:9 (Modern Phone)'' \<and> R = 4878899596318037 / 2251799813685248 \<and>
           s = ''2.1666666666666665''"
  using assms unfolding ratio_map_values by (simp split: if_splits)

lemma ratio_map_not_pad:
  "map_of ratio_map sel = Some (R, s) \<Longrightarrow> sel \<noteq> ''Keep Original (Pad)''"
  by (drule ratio_map_cases) auto

lemma map_of_1_1: "map_of ratio_map ''Crop to 1:1 (Square)'' = Some (1, ''1.0'')"
  by (simp add: ratio_map_values)

lemma map_of_19_5:
  "map_of ratio_map ''Crop to 19.5:9 (Modern Phone)'' =
     Some (4878899596318037 / 2251799813685248, ''2.1666666666666665'')"
  by (simp add: ratio_map_values)

lemma plan_geometry_crop:
  assumes "map_of ratio_map sel = Some (R, s)" and "int_truediv w h = Inr input_ar"
  shows "plan_geometry sel w h =
     Inr \<lparr>scale_filter = crop_filter input_ar R s @ '',scale='' @
             str_int (fst (crop_target R)) @ '':'' @ str_int (snd (crop_target R)),
          target_w = fst (crop_target R), target_h = snd (crop_target R)\<rparr>"
  using assms ratio_map_not_pad [OF assms(1)]
  by (simp add: plan_geometry_def split: prod.split)

lemma plan_19_5:
  "plan_geometry ''Crop to 19.5:9 (Modern Phone)'' 1920 1080 =
     Inr \<lparr>scale_filter = ''crop=iw:iw/2.1666666666666665,scale=1280:590'',
          target_w = 1280, target_h = 590\<rparr>"
  by (simp add: plan_geometry_crop [OF map_of_19_5 int_truediv_1920_1080] crop_target_13_6
      crop_filter_def str_int_590 str_int_1280)

text \<open>
  C4, as amended. For a crop mode with ratio \<open>R\<close> (the double of \<^verbatim>\<open>ratio_map\<close>) the
  target is \<open>(1280, \<lfloor>1280/R\<rfloor>)\<close> when \<open>R \<ge> 1\<close> and \<open>(\<lfloor>1280\<cdot>R\<rfloor>, 1280)\<close> otherwise: line 87
  applies \<^verbatim>\<open>int\<close>, which drops the fraction, and does not round to the nearest integer.
  The four modes give 1280 by 720, 720 by 1280, 1280 by 1280 and 1280 by 590.
\<close>

theorem crop_target_truncated:
  assumes "map_of ratio_map sel = Some (R, s)" and "plan_geometry sel w h = Inr plan"
  shows "(target_w plan, target_h plan) =
           (if R \<ge> 1 then (1280, \<lfloor>1280 / R\<rfloor>) else (\<lfloor>1280 * R\<rfloor>, 1280)) \<and>
         (target_w plan, target_h plan) =
           (if sel = ''Crop to 16:9 (Widescreen)'' then (1280, 720)
            else if sel = ''Crop to 9:16 (Tall/Story)'' then (720, 1280)
            else if sel = ''Crop to 1:1 (Square)'' then (1280, 1280)
            else (1280, 590))"
proof -
  from assms(2) obtain input_ar where d: "int_truediv w h = Inr input_ar"
    using assms(1) ratio_map_not_pad [OF assms(1)]
    by (auto simp: plan_geometry_def split: sum.splits)
  have t: "(target_w plan, target_h plan) = crop_target R"
    using plan_geometry_crop [OF assms(1) d] assms(2) by auto
  from ratio_map_cases [OF assms(1)] show ?thesis
    unfolding t
    by (elim disjE conjE; hypsubst)
       (simp_all add: crop_target_16_9 crop_target_9_16 crop_target_1 crop_target_13_6
          floor_eq_iff)
qed

theorem crop_target_truncated_witness:
  "map_of ratio_map ''Crop to 19.5:9 (Modern Phone)'' =
     Some (4878899596318037 / 2251799813685248, ''2.1666666666666665'') \<and>
   plan_geometry ''Crop to 19.5:9 (Modern Phone)'' 1920 1080 =
     Inr \<lparr>scale_filter = ''crop=iw:iw/2.1666666666666665,scale=1280:590'',
          target_w = 1280, target_h = 590\<rparr> \<and>
   ((1280, 590) :: int \<times> int) =
     (1280, \<lfloor>1280 / (4878899596318037 / 2251799813685248 :: rat)\<rfloor>)"
  using crop_target_truncated [OF map_of_19_5 plan_19_5] map_of_19_5 plan_19_5
  by simp

text \<open>
  C4 as stated fails for the mode 19.5:9: the planner's target height is 590, where
  \<open>round(1280/R)\<close> is 591, for the double of the table as for the exact ratio 13/6.
\<close>

theorem crop_target_not_rounded:
  "plan_geometry ''Crop to 19.5:9 (Modern Phone)'' 1920 1080 =
     Inr \<lparr>scale_filter = ''crop=iw:iw/2.1666666666666665,scale=1280:590'',
          target_w = 1280, target_h = 590\<rparr> \<and>
   map_of ratio_map ''Crop to 19.5:9 (Modern Phone)'' =
     Some (4878899596318037 / 2251799813685248, ''2.1666666666666665'') \<and>
   spec_crop_target (4878899596318037 / 2251799813685248) = (1280, 591) \<and>
   spec_crop_target (13 / 6) = (1280, 591)"
  by (simp add: plan_19_5 map_of_19_5 spec_crop_target_def round_def floor_eq_iff)

text \<open>
  C6. For a crop mode with ratio \<open>R\<close>, written \<open>s\<close> in the filter, and effective dimensions
  \<open>w\<close> and \<open>h\<close> whose quotient \<^verbatim>\<open>width / height\<close> is the double \<open>input_ar\<close>: when
  \<open>input_ar > R\<close> the filter is \<^verbatim>\<open>crop=ih*R:ih\<close> (width cut to height times \<open>R\<close>, height
  as it is), otherwise \<^verbatim>\<open>crop=iw:iw/R\<close> (height cut to width over \<open>R\<close>, width as it is);
  in both cases a \<^verbatim>\<open>scale\<close> to exactly the target dimensions follows.
\<close>

theorem crop_filter_by_ratio:
  assumes "map_of ratio_map sel = Some (R, s)" and "int_truediv w h = Inr input_ar"
  shows "plan_geometry sel w h =
     Inr \<lparr>scale_filter =
            (if input_ar > R then ''crop=ih*'' @ s @ '':ih'' else ''crop=iw:iw/'' @ s) @
            '',scale='' @ str_int (fst (crop_target R)) @ '':'' @ str_int (snd (crop_target R)),
          target_w = fst (crop_target R), target_h = snd (crop_target R)\<rparr>"
  using plan_geometry_crop [OF assms] by (simp add: crop_filter_def)

theorem crop_filter_by_ratio_witness:
  "map_of ratio_map ''Crop to 1:1 (Square)'' = Some (1, ''1.0'') \<and>
   int_truediv 1920 1080 = Inr (2001599834386887 / 1125899906842624) \<and>
   plan_geometry ''Crop to 1:1 (Square)'' 1920 1080 =
     Inr \<lparr>scale_filter = ''crop=ih*1.0:ih,scale=1280:1280'',
          target_w = 1280, target_h = 1280\<rparr> \<and>
   int_truediv 1080 1920 = Inr (9 / 16) \<and>
   plan_geometry ''Crop to 1:1 (Square)'' 1080 1920 =
     Inr \<lparr>scale_filter = ''crop=iw:iw/1.0,scale=1280:1280'',
          target_w = 1280, target_h = 1280\<rparr>"
  using crop_filter_by_ratio [OF map_of_1_1 int_truediv_1920_1080]
    crop_filter_by_ratio [OF map_of_1_1 int_truediv_1080_1920]
  by (simp add: map_of_1_1 int_truediv_1920_1080 int_truediv_1080_1920 crop_target_1
      str_int_1280)

section \<open>The probe\<close>

lemma get_video_metadata_stream:
  assumes "returncode result = 0" and "stdout_json result = Some metadata"
    and "find_video_stream metadata = Inr (Some vs)"
  shows "get_video_metadata path result =
     (case stream_metadata vs of
        Inl e \<Rightarrow> Inl (Metadata_failure (basename path) e)
      | Inr m \<Rightarrow> Inr m)"
  using assms
  by (simp add: get_video_metadata_def read_metadata_def raising_def split: sum.split)


lemma int_of_str_abc: "int_of_str ''abc'' = None"
  by (simp add: int_of_str_def strip_def is_space_def unsigned_value_def is_digit_def
      digit_val_def)

text \<open>
  C8, as amended. For a probe whose output has a video stream with integer width and
  height: when the stream has no \<^verbatim>\<open>tags\<close> or its tags have no \<^verbatim>\<open>rotate\<close>, the probe
  succeeds with rotation 0; when the \<^verbatim>\<open>rotate\<close> tag is there and \<^verbatim>\<open>int\<close> raises on it,
  the probe fails, with the text of line 57 for that exception.
\<close>

theorem rotation_default_or_failure:
  assumes "returncode result = 0" and "stdout_json result = Some metadata"
    and "find_video_stream metadata = Inr (Some vs)"
    and "raising (subscript vs ''width'') py_int = Inr w"
    and "raising (subscript vs ''height'') py_int = Inr h"
    and "dict_get vs ''tags'' (JObj []) = Inr (JObj tags)"
  shows "(map_of tags ''rotate'' = None \<longrightarrow>
           get_video_metadata path result = Inr \<lparr>width = w, height = h, rotation = 0\<rparr>) \<and>
         (\<forall>rv e. map_of tags ''rotate'' = Some rv \<and> py_int rv = Inl e \<longrightarrow>
           get_video_metadata path result = Inl (Metadata_failure (basename path) e))"
proof (intro conjI impI allI)
  assume "map_of tags ''rotate'' = None"
  then have "stream_metadata vs = Inr \<lparr>width = w, height = h, rotation = 0\<rparr>"
    using assms(4-6)
    by (auto simp: stream_metadata_def rotate_tag_def raising_def split: sum.splits)
  then show "get_video_metadata path result = Inr \<lparr>width = w, height = h, rotation = 0\<rparr>"
    using get_video_metadata_stream [OF assms(1-3), of path] by simp
next
  fix rv e
  assume "map_of tags ''rotate'' = Some rv \<and> py_int rv = Inl e"
  then have "stream_metadata vs = Inl e"
    using assms(4-6)
    by (auto simp: stream_metadata_def rotate_tag_def raising_def split: sum.splits)
  then show "get_video_metadata path result = Inl (Metadata_failure (basename path) e)"
    using get_video_metadata_stream [OF assms(1-3), of path] by simp
qed

theorem rotation_default_or_failure_witness:
  "get_video_metadata ''/v/a.mp4''
     \<lparr>returncode = 0, stderr = [],
      stdout_json = Some (JObj [(''streams'', JList [JObj [(''codec_type'', JStr ''video''),
        (''width'', JInt 1920), (''height'', JInt 1080)]])])\<rparr> =
     Inr \<lparr>width = 1920, height = 1080, rotation = 0\<rparr> \<and>
   get_video_metadata ''/v/a.mp4''
     \<lparr>returncode = 0, stderr = [],
      stdout_json = Some (JObj [(''streams'', JList [JObj [(''codec_type'', JStr ''video''),
        (''width'', JInt 1920), (''height'', JInt 1080),
        (''tags'', JObj [(''rotate'', JStr ''abc'')])]])])\<rparr> =
     Inl (Metadata_failure ''a.mp4'' ValueError)"
  using rotation_default_or_failure [of
      "\<lparr>returncode = 0, stderr = [],
        stdout_json = Some (JObj [(''streams'', JList [JObj [(''codec_type'', JStr ''video''),
          (''width'', JInt 1920), (''height'', JInt 1080)]])])\<rparr>"
      "JObj [(''streams'', JList [JObj [(''codec_type'', JStr ''video''),
          (''width'', JInt 1920), (''height'', JInt 1080)]])]"
      "JObj [(''codec_type'', JStr ''video''), (''width'', JInt 1920), (''height'', JInt 1080)]"
      1920 1080 "[]" "''/v/a.mp4''"]
    rotation_default_or_failure [of
      "\<lparr>returncode = 0, stderr = [],
        stdout_json = Some (JObj [(''streams'', JList [JObj [(''codec_type'', JStr ''video''),
          (''width'', JInt 1920), (''height'', JInt 1080),
          (''tags'', JObj [(''rotate'', JStr ''abc'')])]])])\<rparr>"
      "JObj [(''streams'', JList [JObj [(''codec_type'', JStr ''video''),
          (''width'', JInt 1920), (''height'', JInt 1080),
          (''tags'', JObj [(''rotate'', JStr ''abc'')])]])]"
      "JObj [(''codec_type'', JStr ''video''), (''width'', JInt 1920), (''height'', JInt 1080),
          (''tags'', JObj [(''rotate'', JStr ''abc'')])]"
      1920 1080 "[(''rotate'', JStr ''abc'')]" "''/v/a.mp4''"]
  by (simp add: find_video_stream_def raising_def int_of_str_abc basename_def)

text \<open>
  C8 as stated fails where the \<^verbatim>\<open>rotate\<close> tag is the text \<^verbatim>\<open>abc\<close>: the probe does not
  succeed with rotation 0, it fails with the \<^verbatim>\<open>ValueError\<close> of \<^verbatim>\<open>int\<close>.
\<close>

theorem unparsable_rotation_fails:
  "get_video_metadata ''/v/a.mp4''
     \<lparr>returncode = 0, stderr = [],
      stdout_json = Some (JObj [(''streams'', JList [JObj [(''codec_type'', JStr ''video''),
        (''width'', JInt 1920), (''height'', JInt 1080),
        (''tags'', JObj [(''rotate'', JStr ''abc'')])]])])\<rparr> =
     Inl (Metadata_failure ''a.mp4'' ValueError)"
  by (simp add: get_video_metadata_def read_metadata_def find_video_stream_def
      stream_metadata_def rotate_tag_def raising_def int_of_str_abc basename_def)



section \<open>The progress value\<close>

lemma quotient_bounds:
  assumes "i < n"
  shows "(0::rat) \<le> (of_nat i + 1) / of_nat n" and "(of_nat i + 1) / of_nat n \<le> (1::rat)"
proof -
  have n: "(0::rat) < of_nat n" using assms by simp
  show "(0::rat) \<le> (of_nat i + 1) / of_nat n" using n by simp
  have "Suc i \<le> n" using assms by simp
  then have "(of_nat (Suc i) :: rat) \<le> of_nat n" by (simp only: of_nat_le_iff)
  then have "(of_nat i + 1 :: rat) \<le> of_nat n" by simp
  then show "(of_nat i + 1) / of_nat n \<le> (1::rat)" using n by simp
qed

lemma fl_quotient_bounds:
  assumes "i < n"
  shows "0 \<le> fl ((of_nat i + 1) / of_nat n)" and "fl ((of_nat i + 1) / of_nat n) \<le> 1"
proof -
  show "0 \<le> fl ((of_nat i + 1) / of_nat n)"
    using quotient_bounds(1) [OF assms] by (rule fl_nonneg)
  have "fl ((of_nat i + 1) / of_nat n) \<le> fl 1"
    using quotient_bounds [OF assms] by (rule fl_mono_nonneg)
  then show "fl ((of_nat i + 1) / of_nat n) \<le> 1" by (simp only: fl_1)
qed

lemma fl_percent_bounds:
  assumes "i < n"
  shows "0 \<le> fl (fl ((of_nat i + 1) / of_nat n) * 100)"
    and "fl (fl ((of_nat i + 1) / of_nat n) * 100) \<le> 100"
proof -
  have a: "0 \<le> fl ((of_nat i + 1) / of_nat n) * 100"
    using fl_quotient_bounds(1) [OF assms] by simp
  then show "0 \<le> fl (fl ((of_nat i + 1) / of_nat n) * 100)" by (rule fl_nonneg)
  have "fl ((of_nat i + 1) / of_nat n) * 100 \<le> 100"
    using fl_quotient_bounds(2) [OF assms] by simp
  with a have "fl (fl ((of_nat i + 1) / of_nat n) * 100) \<le> fl 100" by (rule fl_mono_nonneg)
  then show "fl (fl ((of_nat i + 1) / of_nat n) * 100) \<le> 100" by (simp only: fl_100)
qed

lemma progress_value:
  assumes "i < n"
  shows "progress i n = Inr \<lfloor>fl (fl ((of_nat i + 1) / of_nat n) * 100)\<rfloor>"
proof -
  let ?q = "fl ((of_nat i + 1) / of_nat n)"
  have c: "(of_int (int i + 1) / of_int (int n) :: rat) = (of_nat i + 1) / of_nat n" by simp
  have big: "(1::rat) < 2 ^ 1024" by (rule one_less_power) simp_all
  have big': "(100::rat) < 2 ^ 1024"
  proof -
    have "(100::rat) < 2 ^ 7" by simp
    also have "\<dots> \<le> 2 ^ 1024" by (rule power_increasing) simp_all
    finally show ?thesis .
  qed
  have q: "\<bar>?q\<bar> < 2 ^ 1024"
    using fl_quotient_bounds [OF assms] big by simp
  have d: "int_truediv (int i + 1) (int n) = Inr ?q"
    using assms q unfolding int_truediv_def c by (simp add: Let_def)
  have p: "\<bar>fl (?q * 100)\<bar> < 2 ^ 1024"
    using fl_percent_bounds [OF assms] big' by simp
  show ?thesis
    using fl_percent_bounds(1) [OF assms] p
    by (simp add: progress_def d raising_def Let_def int_of_float_def)
qed

lemma progress_range:
  assumes "i < n" and "progress i n = Inr p"
  shows "0 \<le> p" and "p \<le> 100"
proof -
  have p: "p = \<lfloor>fl (fl ((of_nat i + 1) / of_nat n) * 100)\<rfloor>"
    using assms progress_value [OF assms(1)] by simp
  show "0 \<le> p" unfolding p using fl_percent_bounds(1) [OF assms(1)] by simp
  show "p \<le> 100" unfolding p using fl_percent_bounds(2) [OF assms(1)]
    by (simp add: floor_le_iff)
qed

lemma progress_mono:
  assumes "i \<le> j" and "j < n" and "progress i n = Inr p" and "progress j n = Inr p'"
  shows "p \<le> p'"
proof -
  have i: "i < n" using assms by simp
  have n: "(0::rat) < of_nat n" using i by simp
  have "(of_nat i + 1 :: rat) \<le> of_nat j + 1" using assms(1) by simp
  then have "(of_nat i + 1) / of_nat n \<le> (of_nat j + 1) / (of_nat n :: rat)"
    using n by (simp add: divide_right_mono)
  with quotient_bounds(1) [OF i]
  have "fl ((of_nat i + 1) / of_nat n) \<le> fl ((of_nat j + 1) / of_nat n)"
    by (rule fl_mono_nonneg)
  then have "fl ((of_nat i + 1) / of_nat n) * 100 \<le> fl ((of_nat j + 1) / of_nat n) * 100"
    by simp
  moreover have "0 \<le> fl ((of_nat i + 1) / of_nat n) * 100"
    using fl_quotient_bounds(1) [OF i] by simp
  ultimately have "fl (fl ((of_nat i + 1) / of_nat n) * 100)
      \<le> fl (fl ((of_nat j + 1) / of_nat n) * 100)"
    by (rule fl_mono_nonneg [rotated])
  then have "\<lfloor>fl (fl ((of_nat i + 1) / of_nat n) * 100)\<rfloor>
      \<le> \<lfloor>fl (fl ((of_nat j + 1) / of_nat n) * 100)\<rfloor>"
    by (rule floor_mono)
  then show ?thesis
    using assms(3,4) progress_value [OF i] progress_value [OF assms(2)] by simp
qed

lemma progress_last: "0 < n \<Longrightarrow> progress (n - 1) n = Inr 100"
proof -
  assume n: "0 < n"
  then have "Suc (n - 1) = n" by simp
  then have "(of_nat (Suc (n - 1)) :: rat) = of_nat n" by (simp only:)
  then have "(of_nat (n - 1) + 1 :: rat) = of_nat n" by (simp add: add.commute)
  then have "(of_nat (n - 1) + 1) / (of_nat n :: rat) = 1" using n by simp
  then show ?thesis using progress_value [of "n - 1" n] n by (simp add: fl_1 fl_100)
qed

section \<open>The loop\<close>

lemma progress_values_append:
  "progress_values (a @ b) = progress_values a @ progress_values b"
  by (induction a rule: progress_values.induct) simp_all

lemma progress_values_handler: "progress_values (fst (handler path e)) = []"
  by (cases e) simp_all

lemma progress_values_encode: "progress_values (fst (encode f t)) = []"
  by (simp add: encode_def Let_def progress_values_append progress_values_handler
      split: option.split)

lemma handler_no_finished: "Finished \<notin> set (fst (handler path e))"
  by (cases e) simp_all

lemma encode_no_finished: "Finished \<notin> set (fst (encode f t))"
  by (simp add: encode_def Let_def handler_no_finished split: option.split)

lemma encode_pass_1_exit:
  assumes "pass_1 f = Decoded r" and "returncode r \<noteq> 0"
  shows "encode f t =
     ([Update_status (file_path f) Pass_1,
       Subprocess_run (first_pass_cmd (file_path f) t),
       Update_status (file_path f) Error,
       Show_error ''Conversion Error'' (Ffmpeg_error (basename (file_path f)) (stderr r))],
      None)"
  using assms by (simp add: encode_def subprocess_run_def)

lemma encode_pass_1_undecodable:
  assumes "pass_1 f = Undecodable rc"
  shows "encode f t =
     ([Update_status (file_path f) Pass_1,
       Subprocess_run (first_pass_cmd (file_path f) t)],
      Some UnicodeDecodeError)"
  using assms by (simp add: encode_def subprocess_run_def)

lemma encode_decoded:
  assumes "pass_1 f = Decoded r1" and "pass_2 f = Decoded r2"
  shows "snd (encode f t) = None"
  using assms by (simp add: encode_def subprocess_run_def)

lemma progress_values_remove_logs: "progress_values (remove_logs f) = []"
  by (simp add: remove_logs_def)

lemma process_file_analysis_failed:
  assumes "get_video_metadata (file_path f) (probe f) = Inl err"
  shows "process_file sel n i f =
     ([Update_status (file_path f) Analyzing, Subprocess_run (ffprobe_command (file_path f)),
       Update_status (file_path f) Analyze_Failed, Show_error ''Analysis Error'' err], None)"
  using assms by (simp add: process_file_def)

lemma process_file_encoded:
  assumes "get_video_metadata (file_path f) (probe f) = Inr m"
    and "plan_geometry sel (fst (effective_dims m)) (snd (effective_dims m)) = Inr plan"
    and "progress i n = Inr p"
  shows "process_file sel n i f =
     ([Update_status (file_path f) Analyzing, Subprocess_run (ffprobe_command (file_path f))] @
      fst (encode f (scale_filter plan)) @ [Update_progress p] @ remove_logs f,
      snd (encode f (scale_filter plan)))"
  using assms by (simp add: process_file_def)

lemma process_file_raised:
  assumes "get_video_metadata (file_path f) (probe f) = Inr m"
    and "plan_geometry sel (fst (effective_dims m)) (snd (effective_dims m)) = Inl e"
  shows "process_file sel n i f =
     ([Update_status (file_path f) Analyzing, Subprocess_run (ffprobe_command (file_path f))],
      Some e)"
  using assms by (simp add: process_file_def)

lemma process_file_progress_values:
  assumes "i < n"
  shows "progress_values (fst (process_file sel n i f)) = [] \<or>
         (\<exists>p. progress i n = Inr p \<and> progress_values (fst (process_file sel n i f)) = [p])"
  using progress_value [OF assms]
  by (simp add: process_file_def Let_def progress_values_append progress_values_encode
      progress_values_remove_logs split: sum.split)

lemma process_file_no_finished: "Finished \<notin> set (fst (process_file sel n i f))"
  using encode_no_finished [of f]
  by (auto simp: process_file_def Let_def remove_logs_def split: sum.split)

lemma run_loop_append:
  "run_loop sel n i (pre @ rest) =
     (case run_loop sel n i pre of
        (evs, Exhausted) \<Rightarrow> prepend evs (run_loop sel n (i + length pre) rest)
      | r \<Rightarrow> r)"
proof (induction pre arbitrary: i)
  case Nil
  then show ?case by (cases "run_loop sel n i rest") simp
next
  case (Cons f pre)
  show ?case
  proof (cases "process_file sel n i f")
    case (Pair evs r)
    show ?thesis
    proof (cases r)
      case None
      obtain evs' r' where p: "run_loop sel n (Suc i) pre = (evs', r')"
        by (cases "run_loop sel n (Suc i) pre")
      obtain evs'' r'' where q: "run_loop sel n (Suc i + length pre) rest = (evs'', r'')"
        by (cases "run_loop sel n (Suc i + length pre) rest")
      show ?thesis
        using Pair None p q Cons.IH [of "Suc i"]
        by (cases r') simp_all
    next
      case (Some e)
      with Pair show ?thesis by simp
    qed
  qed
qed

lemma run_loop_reaches:
  assumes "run_loop sel n i pre = (evs, Exhausted)" and "is_running f"
    and "process_file sel n (i + length pre) f = (evs_f, None)"
  shows "run_loop sel n i (pre @ f # rest) =
           prepend (evs @ evs_f) (run_loop sel n (Suc (i + length pre)) rest)"
proof -
  obtain evs' r' where q: "run_loop sel n (Suc (i + length pre)) rest = (evs', r')"
    by (cases "run_loop sel n (Suc (i + length pre)) rest")
  show ?thesis using assms q by (simp add: run_loop_append)
qed

lemma run_loop_prefix:
  assumes "run_loop sel n i pre = (evs, Exhausted)" and "is_running f"
  shows "\<exists>tail. fst (run_loop sel n i (pre @ f # rest)) =
           evs @ fst (process_file sel n (i + length pre) f) @ tail"
proof -
  obtain evs_f r where p: "process_file sel n (i + length pre) f = (evs_f, r)"
    by (cases "process_file sel n (i + length pre) f")
  obtain evs' r' where q: "run_loop sel n (Suc (i + length pre)) rest = (evs', r')"
    by (cases "run_loop sel n (Suc (i + length pre)) rest")
  show ?thesis
  proof (cases r)
    case None
    with assms p q have "fst (run_loop sel n i (pre @ f # rest)) = evs @ evs_f @ evs'"
      by (simp add: run_loop_append)
    with p show ?thesis by simp
  next
    case (Some e)
    with assms p have "fst (run_loop sel n i (pre @ f # rest)) = evs @ evs_f @ []"
      by (simp add: run_loop_append)
    with p have "fst (run_loop sel n i (pre @ f # rest)) =
        evs @ fst (process_file sel n (i + length pre) f) @ []"
      by simp
    then show ?thesis ..
  qed
qed

lemma fst_emit_finished_events: "\<exists>tail. fst (emit_finished r) = fst r @ tail"
  by (cases r rule: emit_finished.cases) simp_all

lemma run_loop_no_finished: "Finished \<notin> set (fst (run_loop sel n i fs))"
proof (induction fs arbitrary: i)
  case Nil
  then show ?case by simp
next
  case (Cons f fs)
  obtain evs r where p: "process_file sel n i f = (evs, r)" by (cases "process_file sel n i f")
  obtain evs' r' where q: "run_loop sel n (Suc i) fs = (evs', r')"
    by (cases "run_loop sel n (Suc i) fs")
  have "Finished \<notin> set evs" using process_file_no_finished [of sel n i f] p by simp
  moreover have "Finished \<notin> set evs'" using Cons.IH [of "Suc i"] q by simp
  ultimately show ?case using p q by (cases r) simp_all
qed

lemma run_loop_progress_values:
  assumes "i + length fs \<le> n"
  shows "sorted (progress_values (fst (run_loop sel n i fs))) \<and>
         (\<forall>p \<in> set (progress_values (fst (run_loop sel n i fs))).
            \<exists>k. i \<le> k \<and> k < n \<and> progress k n = Inr p)"
  using assms
proof (induction fs arbitrary: i)
  case Nil
  then show ?case by simp
next
  case (Cons f fs)
  then have i: "i < n" and rest: "Suc i + length fs \<le> n" by simp_all
  obtain evs r where p: "process_file sel n i f = (evs, r)" by (cases "process_file sel n i f")
  obtain evs' r' where q: "run_loop sel n (Suc i) fs = (evs', r')"
    by (cases "run_loop sel n (Suc i) fs")
  from Cons.IH [OF rest] q
  have s': "sorted (progress_values evs')"
    and b': "\<forall>p \<in> set (progress_values evs'). \<exists>k. Suc i \<le> k \<and> k < n \<and> progress k n = Inr p"
    by simp_all
  have b'': "\<forall>p \<in> set (progress_values evs'). \<exists>k. i \<le> k \<and> k < n \<and> progress k n = Inr p"
  proof
    fix y assume "y \<in> set (progress_values evs')"
    with b' obtain k where "Suc i \<le> k" "k < n" "progress k n = Inr y" by blast
    then have "i \<le> k \<and> k < n \<and> progress k n = Inr y" by simp
    then show "\<exists>k. i \<le> k \<and> k < n \<and> progress k n = Inr y" ..
  qed
  from process_file_progress_values [OF i, of sel f] p
  consider "progress_values evs = []"
    | x where "progress i n = Inr x" and "progress_values evs = [x]"
    by auto
  then have here: "sorted (progress_values evs @ progress_values evs') \<and>
      (\<forall>p \<in> set (progress_values evs @ progress_values evs').
         \<exists>k. i \<le> k \<and> k < n \<and> progress k n = Inr p)"
  proof cases
    case 1
    with s' b'' show ?thesis by simp
  next
    case 2
    have "\<forall>y \<in> set (progress_values evs'). x \<le> y"
    proof
      fix y assume "y \<in> set (progress_values evs')"
      with b' obtain k where k: "Suc i \<le> k" "k < n" "progress k n = Inr y" by blast
      then have "i \<le> k" by simp
      then show "x \<le> y" using k(2) 2(1) k(3) by (rule progress_mono)
    qed
    moreover have "\<exists>k. i \<le> k \<and> k < n \<and> progress k n = Inr x" using i 2(1) by blast
    ultimately show ?thesis using 2(2) s' b'' by simp
  qed
  show ?case
  proof (cases "is_running f")
    case False
    then show ?thesis by simp
  next
    case True
    show ?thesis
    proof (cases r)
      case None
      with True p q here show ?thesis by (simp add: progress_values_append)
    next
      case (Some e)
      from here have "sorted (progress_values evs) \<and>
        (\<forall>p \<in> set (progress_values evs). \<exists>k. i \<le> k \<and> k < n \<and> progress k n = Inr p)"
        by (auto simp: sorted_append)
      with True p Some show ?thesis by simp
    qed
  qed
qed

lemma fst_emit_finished:
  "progress_values (fst (emit_finished r)) = progress_values (fst r)"
  by (cases r rule: emit_finished.cases) (simp_all add: progress_values_append)

lemma run_finished_once:
  assumes "snd (run sel fs) = None"
  shows "\<exists>evs. fst (run sel fs) = evs @ [Finished] \<and> Finished \<notin> set evs"
proof -
  obtain evs r where q: "run_loop sel (length fs) 0 fs = (evs, r)"
    by (cases "run_loop sel (length fs) 0 fs")
  have "Finished \<notin> set evs" using run_loop_no_finished [of sel "length fs" 0 fs] q by simp
  then show ?thesis using assms q by (cases r) (simp_all add: run_def)
qed

section \<open>The batch\<close>

lemma video_probe_metadata:
  "get_video_metadata path (video_probe w h) = Inr \<lparr>width = w, height = h, rotation = 0\<rparr>"
  by (simp add: get_video_metadata_def video_probe_def read_metadata_def find_video_stream_def
      stream_metadata_def rotate_tag_def raising_def)

lemma audio_probe_metadata: "get_video_metadata path audio_probe = Inl No_video_stream"
  by (simp add: get_video_metadata_def audio_probe_def read_metadata_def find_video_stream_def
      raising_def)

lemma failed_probe_metadata:
  "get_video_metadata path \<lparr>returncode = 1, stderr = err, stdout_json = None\<rparr> =
     Inl (Metadata_failure (basename path) (CalledProcessError 1 err))"
  by (simp add: get_video_metadata_def)

lemma percent_1_3: "\<lfloor>fl (fl (1 / 3) * 100)\<rfloor> = 33"
  by code_simp

lemma percent_2_3: "\<lfloor>fl (fl (2 / 3) * 100)\<rfloor> = 66"
  by code_simp

lemma percent_1_2: "\<lfloor>fl (fl (1 / 2) * 100)\<rfloor> = 50"
  by code_simp

lemma progress_0_1: "progress 0 1 = Inr 100"
  using progress_last [of 1] by simp

lemma progress_0_3: "progress 0 3 = Inr 33"
  using progress_value [of 0 3] by (simp add: percent_1_3)

lemma progress_1_3: "progress 1 3 = Inr 66"
  using progress_value [of 1 3] by (simp add: percent_2_3)

lemma progress_2_3: "progress 2 3 = Inr 100"
  using progress_last [of 3] by simp

lemma plan_geometry_pad_landscape:
  "plan_geometry ''Keep Original (Pad)'' 1920 1080 =
     Inr \<lparr>scale_filter = ''scale=w=1280:h=720:force_original_aspect_ratio=decrease,pad=1280:720:(ow-iw)/2:(oh-ih)/2:color=black'',
          target_w = 1280, target_h = 720\<rparr>"
  by (simp add: plan_geometry_def pad_target_def pad_filter_def str_int_1280 str_int_720)

lemma progress_Suc_0_3: "progress (Suc 0) 3 = Inr 66"
  using progress_1_3 by simp

lemma progress_Suc_Suc_0_3: "progress (Suc (Suc 0)) 3 = Inr 100"
  using progress_2_3 by (simp add: numeral_2_eq_2)

lemma progress_0_2: "progress 0 2 = Inr 50"
  using progress_value [of 0 2] by (simp add: percent_1_2)

lemma process_file_pad:
  assumes "i < n" and "\<forall>t. snd (encode f t) = None"
  shows "snd (process_file ''Keep Original (Pad)'' n i f) = None"
  using progress_value [OF assms(1)] assms(2)
  by (simp add: process_file_def Let_def plan_geometry_def pad_target_def split: sum.split)

lemma run_loop_pad:
  assumes "i + length fs \<le> n" and "\<forall>f \<in> set fs. \<forall>t. snd (encode f t) = None"
  shows "\<forall>e. snd (run_loop ''Keep Original (Pad)'' n i fs) \<noteq> Raised e"
  using assms
proof (induction fs arbitrary: i)
  case Nil
  then show ?case by simp
next
  case (Cons f fs)
  then have i: "i < n" and rest: "Suc i + length fs \<le> n" by simp_all
  from Cons.prems(2) have here: "\<forall>t. snd (encode f t) = None"
    and others: "\<forall>f \<in> set fs. \<forall>t. snd (encode f t) = None" by simp_all
  obtain evs r where p: "process_file ''Keep Original (Pad)'' n i f = (evs, r)"
    by (cases "process_file ''Keep Original (Pad)'' n i f")
  with process_file_pad [OF i here] have r: "r = None" by simp
  obtain evs' r' where q: "run_loop ''Keep Original (Pad)'' n (Suc i) fs = (evs', r')"
    by (cases "run_loop ''Keep Original (Pad)'' n (Suc i) fs")
  with Cons.IH [OF rest others] have "\<forall>e. r' \<noteq> Raised e" by simp
  with p q r show ?case by simp
qed

text \<open>
  In the pad mode no exception leaves the loop, provided that every encoder call returns
  or is caught by the handler.
\<close>

lemma run_pad_finishes:
  assumes "\<forall>f \<in> set fs. \<forall>t. snd (encode f t) = None"
  shows "snd (run ''Keep Original (Pad)'' fs) = None"
proof -
  obtain evs r where q: "run_loop ''Keep Original (Pad)'' (length fs) 0 fs = (evs, r)"
    by (cases "run_loop ''Keep Original (Pad)'' (length fs) 0 fs")
  with run_loop_pad [of 0 fs "length fs"] assms have "\<forall>e. r \<noteq> Raised e" by simp
  with q show ?thesis by (cases r) (simp_all add: run_def)
qed

lemma probe_error_fails:
  "returncode result \<noteq> 0 \<Longrightarrow>
   get_video_metadata path result =
     Inl (Metadata_failure (basename path)
            (CalledProcessError (returncode result) (stderr result)))"
  by (simp add: get_video_metadata_def)

lemma no_video_stream_fails:
  "returncode result = 0 \<Longrightarrow> stdout_json result = Some metadata \<Longrightarrow>
   find_video_stream metadata = Inr None \<Longrightarrow>
   get_video_metadata path result = Inl No_video_stream"
  by (simp add: get_video_metadata_def read_metadata_def raising_def)

text \<open>
  C1. Let the loop reach the file \<open>f\<close> (the files \<open>pre\<close> before it were processed to the
  end, and \<^verbatim>\<open>is_running\<close> is set) and let its analysis fail, by an error of the probe
  or for want of a video stream. Then the run emits for \<open>f\<close> the status of the analysis,
  starts the probe, emits the status \<^verbatim>\<open>Analyze Failed\<close> and the error event with the
  detail, starts no encoder for it, and goes on with the files \<open>rest\<close> after it.
\<close>

theorem analysis_failure_isolated:
  assumes "run_loop sel (length (pre @ f # rest)) 0 pre = (evs, Exhausted)"
    and "is_running f"
    and "get_video_metadata (file_path f) (probe f) = Inl err"
  shows "run sel (pre @ f # rest) =
     emit_finished (prepend
       (evs @ [Update_status (file_path f) Analyzing,
               Subprocess_run (ffprobe_command (file_path f)),
               Update_status (file_path f) Analyze_Failed,
               Show_error ''Analysis Error'' err])
       (run_loop sel (length (pre @ f # rest)) (Suc (length pre)) rest))"
  unfolding run_def
  using run_loop_reaches [OF assms(1,2), of _ rest]
    process_file_analysis_failed [OF assms(3), of sel "length (pre @ f # rest)" "length pre"]
  by simp

theorem analysis_failure_isolated_witness:
  "is_running (clip ''/v/a.mp4'' audio_probe (exited 0 []) (exited 0 [])) \<and>
   get_video_metadata ''/v/a.mp4'' audio_probe = Inl No_video_stream \<and>
   run ''Crop to 1:1 (Square)''
     [clip ''/v/a.mp4'' audio_probe (exited 0 []) (exited 0 []),
      clip ''/v/b.mp4'' \<lparr>returncode = 1, stderr = ''no such file'', stdout_json = None\<rparr>
        (exited 0 []) (exited 0 [])] =
   ([Update_status ''/v/a.mp4'' Analyzing,
     Subprocess_run (ffprobe_command ''/v/a.mp4''),
     Update_status ''/v/a.mp4'' Analyze_Failed,
     Show_error ''Analysis Error'' No_video_stream,
     Update_status ''/v/b.mp4'' Analyzing,
     Subprocess_run (ffprobe_command ''/v/b.mp4''),
     Update_status ''/v/b.mp4'' Analyze_Failed,
     Show_error ''Analysis Error''
       (Metadata_failure ''b.mp4'' (CalledProcessError 1 ''no such file'')),
     Finished], None)"
  using analysis_failure_isolated [of "''Crop to 1:1 (Square)''" "[]"
      "clip ''/v/a.mp4'' audio_probe (exited 0 []) (exited 0 [])"
      "[clip ''/v/b.mp4'' \<lparr>returncode = 1, stderr = ''no such file'', stdout_json = None\<rparr>
          (exited 0 []) (exited 0 [])]" "[]"
      No_video_stream]
  by (simp add: clip_def audio_probe_metadata failed_probe_metadata process_file_def Let_def
      basename_def)

text \<open>
  Where pass 1 ends with a return code other than 0 and its output is text, the handler
  does what C2 says: for a file \<open>f\<close> that the loop reaches, with analysis and planning
  done, the run starts the probe and pass 1 and never pass 2, emits the status
  \<^verbatim>\<open>Error\<close> and the error event with the encoder's diagnostic output, emits the
  progress, and goes on with the files after it.
\<close>

lemma pass_1_exit_handled:
  assumes "run_loop sel (length (pre @ f # rest)) 0 pre = (evs, Exhausted)"
    and "is_running f"
    and "get_video_metadata (file_path f) (probe f) = Inr m"
    and "plan_geometry sel (fst (effective_dims m)) (snd (effective_dims m)) = Inr plan"
    and "pass_1 f = Decoded r" and "returncode r \<noteq> 0"
  shows "run sel (pre @ f # rest) =
     emit_finished (prepend
       (evs @ [Update_status (file_path f) Analyzing,
               Subprocess_run (ffprobe_command (file_path f)),
               Update_status (file_path f) Pass_1,
               Subprocess_run (first_pass_cmd (file_path f) (scale_filter plan)),
               Update_status (file_path f) Error,
               Show_error ''Conversion Error''
                 (Ffmpeg_error (basename (file_path f)) (stderr r)),
               Update_progress
                 \<lfloor>fl (fl ((of_nat (length pre) + 1) / of_nat (length (pre @ f # rest))) * 100)\<rfloor>] @
        remove_logs f)
       (run_loop sel (length (pre @ f # rest)) (Suc (length pre)) rest))"
proof -
  have i: "length pre < length (pre @ f # rest)" by simp
  note p = process_file_encoded [OF assms(3,4) progress_value [OF i]]
  show ?thesis
    unfolding run_def
    using run_loop_reaches [OF assms(1,2), of _ rest] p
    by (simp add: encode_pass_1_exit [OF assms(5,6)])
qed

text \<open>
  C2. For every file whose pass 1 ends with a return code other than 0, pass 2 is not to
  be started, the file is to be reported with the status \<^verbatim>\<open>Error\<close>, an error event with
  the encoder's diagnostic output is to be emitted, and the batch is to go on. The code
  misses a case: the handler of line 108 catches \<^verbatim>\<open>CalledProcessError\<close> only, and with
  \<^verbatim>\<open>text=True\<close> (line 104) the call raises \<^verbatim>\<open>UnicodeDecodeError\<close> when the output of
  the encoder cannot be decoded.
  For a pass 1 that ends with return code 1 and such output, in a batch of two files: pass 2
  is not started, but neither the status \<^verbatim>\<open>Error\<close> nor an error event is emitted; the
  \<^verbatim>\<open>finally\<close> block emits the progress, the exception leaves \<^verbatim>\<open>run\<close>, the second file
  is never looked at and \<^verbatim>\<open>finished\<close> is not emitted.
\<close>

theorem undecodable_pass_1_ends_run:
  "exit_status (Undecodable 1) \<noteq> 0 \<and>
   run ''Keep Original (Pad)''
     [\<lparr>file_path = ''/v/a.mp4'', is_running = True,
       probe = \<lparr>returncode = 0, stderr = [],
                 stdout_json = Some (JObj [(''streams'',
                   JList [JObj [(''codec_type'', JStr ''video''), (''width'', JInt 1920),
                                (''height'', JInt 1080)]])])\<rparr>,
       pass_1 = Undecodable 1,
       pass_2 = Decoded \<lparr>returncode = 0, stderr = []\<rparr>,
       existing_logs = []\<rparr>,
      \<lparr>file_path = ''/v/b.mp4'', is_running = True,
       probe = \<lparr>returncode = 0, stderr = [],
                 stdout_json = Some (JObj [(''streams'',
                   JList [JObj [(''codec_type'', JStr ''video''), (''width'', JInt 1920),
                                (''height'', JInt 1080)]])])\<rparr>,
       pass_1 = Decoded \<lparr>returncode = 0, stderr = []\<rparr>,
       pass_2 = Decoded \<lparr>returncode = 0, stderr = []\<rparr>,
       existing_logs = []\<rparr>] =
   ([Update_status ''/v/a.mp4'' Analyzing,
     Subprocess_run (ffprobe_command ''/v/a.mp4''),
     Update_status ''/v/a.mp4'' Pass_1,
     Subprocess_run (first_pass_cmd ''/v/a.mp4''
       ''scale=w=1280:h=720:force_original_aspect_ratio=decrease,pad=1280:720:(ow-iw)/2:(oh-ih)/2:color=black''),
     Update_progress 50],
    Some UnicodeDecodeError)"
proof -
  have m: "get_video_metadata ''/v/a.mp4'' (video_probe 1920 1080) =
      Inr \<lparr>width = 1920, height = 1080, rotation = 0\<rparr>"
    by (rule video_probe_metadata)
  show ?thesis
    using m
    by (simp add: exit_status_def run_def numeral_2_eq_2 [symmetric] process_file_def Let_def
        video_probe_def effective_dims_def plan_geometry_pad_landscape progress_0_2
        encode_def subprocess_run_def remove_logs_def)
qed

text \<open>
  C3, as amended. After the file number \<open>k\<close> of \<open>n\<close> (\<open>k\<close> is \<open>length pre + 1\<close>) that the
  loop reaches, when its analysis and the planning of its geometry succeeded and whatever
  the encoder calls did, the run emits exactly one progress value for it:
  \<^verbatim>\<open>int((k / n) * 100)\<close> in double arithmetic, a truncation and not a rounding to the
  nearest integer. The progress values of a run are in non-decreasing order and lie
  between 0 and 100.
\<close>

theorem progress_truncated_nondecreasing:
  assumes "run_loop sel (length (pre @ f # rest)) 0 pre = (evs, Exhausted)"
    and "is_running f"
    and "get_video_metadata (file_path f) (probe f) = Inr m"
    and "plan_geometry sel (fst (effective_dims m)) (snd (effective_dims m)) = Inr plan"
  shows "(\<exists>tail. fst (run sel (pre @ f # rest)) =
            evs @ fst (process_file sel (length (pre @ f # rest)) (length pre) f) @ tail) \<and>
         progress_values (fst (process_file sel (length (pre @ f # rest)) (length pre) f)) =
           [\<lfloor>fl (fl ((of_nat (length pre) + 1) / of_nat (length (pre @ f # rest))) * 100)\<rfloor>] \<and>
         sorted (progress_values (fst (run sel (pre @ f # rest)))) \<and>
         (\<forall>p \<in> set (progress_values (fst (run sel (pre @ f # rest)))). 0 \<le> p \<and> p \<le> 100)"
proof (intro conjI)
  let ?n = "length (pre @ f # rest)"
  have i: "length pre < ?n" by simp
  note p = process_file_encoded [OF assms(3,4) progress_value [OF i]]
  from run_loop_prefix [OF assms(1,2), of rest]
  obtain tail where t: "fst (run_loop sel ?n 0 (pre @ f # rest)) =
      evs @ fst (process_file sel ?n (length pre) f) @ tail"
    by auto
  from fst_emit_finished_events [of "run_loop sel ?n 0 (pre @ f # rest)"]
  obtain tail' where "fst (run sel (pre @ f # rest)) =
      fst (run_loop sel ?n 0 (pre @ f # rest)) @ tail'"
    unfolding run_def by blast
  with t have "fst (run sel (pre @ f # rest)) =
      evs @ fst (process_file sel ?n (length pre) f) @ (tail @ tail')"
    by simp
  then show "\<exists>tail. fst (run sel (pre @ f # rest)) =
      evs @ fst (process_file sel ?n (length pre) f) @ tail" ..
  show "progress_values (fst (process_file sel ?n (length pre) f)) =
      [\<lfloor>fl (fl ((of_nat (length pre) + 1) / of_nat ?n) * 100)\<rfloor>]"
    unfolding p
    by (simp add: progress_values_append progress_values_encode progress_values_remove_logs)
  have all: "0 + length (pre @ f # rest) \<le> ?n" by simp
  note v = run_loop_progress_values [OF all, of sel]
  show "sorted (progress_values (fst (run sel (pre @ f # rest))))"
    unfolding run_def fst_emit_finished using v by simp
  show "\<forall>p \<in> set (progress_values (fst (run sel (pre @ f # rest)))). 0 \<le> p \<and> p \<le> 100"
    unfolding run_def fst_emit_finished
  proof
    fix p assume "p \<in> set (progress_values (fst (run_loop sel ?n 0 (pre @ f # rest))))"
    with v obtain k where "k < ?n" "progress k ?n = Inr p" by blast
    then show "0 \<le> p \<and> p \<le> 100" using progress_range [of k ?n p] by simp
  qed
qed

lemma sample_process_file:
  assumes "progress i 3 = Inr p"
  shows "\<exists>E. process_file ''Keep Original (Pad)'' 3 i
               (clip path (video_probe 1920 1080) (exited rc1 e1) (exited rc2 e2)) = (E, None) \<and>
             progress_values E = [p]"
proof -
  let ?f = "clip path (video_probe 1920 1080) (exited rc1 e1) (exited rc2 e2)"
  let ?plan = "\<lparr>scale_filter = ''scale=w=1280:h=720:force_original_aspect_ratio=decrease,pad=1280:720:(ow-iw)/2:(oh-ih)/2:color=black'',
      target_w = 1280, target_h = 720\<rparr>"
  have m: "get_video_metadata (file_path ?f) (probe ?f) =
      Inr \<lparr>width = 1920, height = 1080, rotation = 0\<rparr>"
    by (simp add: clip_def video_probe_metadata)
  have g: "plan_geometry ''Keep Original (Pad)''
      (fst (effective_dims \<lparr>width = 1920, height = 1080, rotation = 0\<rparr>))
      (snd (effective_dims \<lparr>width = 1920, height = 1080, rotation = 0\<rparr>)) = Inr ?plan"
    by (simp add: effective_dims_def plan_geometry_pad_landscape)
  have e: "snd (encode ?f (scale_filter ?plan)) = None"
    by (rule encode_decoded) (simp_all add: clip_def exited_def)
  from process_file_encoded [OF m g assms] e
  have "process_file ''Keep Original (Pad)'' 3 i ?f =
      ([Update_status (file_path ?f) Analyzing,
        Subprocess_run (ffprobe_command (file_path ?f))] @
       fst (encode ?f (scale_filter ?plan)) @ [Update_progress p] @ remove_logs ?f, None)"
    by simp
  moreover have "progress_values
      ([Update_status (file_path ?f) Analyzing,
        Subprocess_run (ffprobe_command (file_path ?f))] @
       fst (encode ?f (scale_filter ?plan)) @ [Update_progress p] @ remove_logs ?f) = [p]"
    by (simp add: progress_values_append progress_values_encode progress_values_remove_logs)
  ultimately show ?thesis by blast
qed

theorem progress_truncated_nondecreasing_witness:
  "progress_values
     (fst (process_file ''Keep Original (Pad)'' 3 1
        (clip ''/v/b.mp4'' (video_probe 1920 1080) (exited 1 ''boom'') (exited 0 [])))) = [66] \<and>
   progress_values
     (fst (run ''Keep Original (Pad)''
        [clip ''/v/a.mp4'' (video_probe 1920 1080) (exited 0 []) (exited 0 []),
         clip ''/v/b.mp4'' (video_probe 1920 1080) (exited 1 ''boom'') (exited 0 []),
         clip ''/v/c.mp4'' (video_probe 1920 1080) (exited 0 []) (exited 0 [])])) =
     [33, 66, 100] \<and>
   sorted (progress_values
     (fst (run ''Keep Original (Pad)''
        [clip ''/v/a.mp4'' (video_probe 1920 1080) (exited 0 []) (exited 0 []),
         clip ''/v/b.mp4'' (video_probe 1920 1080) (exited 1 ''boom'') (exited 0 []),
         clip ''/v/c.mp4'' (video_probe 1920 1080) (exited 0 []) (exited 0 [])])))"
proof -
  let ?a = "clip ''/v/a.mp4'' (video_probe 1920 1080) (exited 0 []) (exited 0 [])"
  let ?b = "clip ''/v/b.mp4'' (video_probe 1920 1080) (exited 1 ''boom'') (exited 0 [])"
  let ?c = "clip ''/v/c.mp4'' (video_probe 1920 1080) (exited 0 []) (exited 0 [])"
  from sample_process_file [OF progress_0_3]
  obtain A where a: "process_file ''Keep Original (Pad)'' 3 0 ?a = (A, None)"
    and pa: "progress_values A = [33]" by blast
  from sample_process_file [OF progress_Suc_0_3]
  obtain B where b: "process_file ''Keep Original (Pad)'' 3 (Suc 0) ?b = (B, None)"
    and pb: "progress_values B = [66]" by blast
  from sample_process_file [OF progress_Suc_Suc_0_3]
  obtain C where c: "process_file ''Keep Original (Pad)'' 3 (Suc (Suc 0)) ?c = (C, None)"
    and pc: "progress_values C = [100]" by blast
  have running: "is_running ?a" "is_running ?b" "is_running ?c" by (simp_all add: clip_def)
  have pre: "run_loop ''Keep Original (Pad)'' (length ([?a] @ ?b # [?c])) 0 [?a] =
      (A, Exhausted)"
    using a running by (simp add: numeral_3_eq_3 [symmetric])
  have m: "get_video_metadata (file_path ?b) (probe ?b) =
      Inr \<lparr>width = 1920, height = 1080, rotation = 0\<rparr>"
    by (simp add: clip_def video_probe_metadata)
  have g: "plan_geometry ''Keep Original (Pad)''
      (fst (effective_dims \<lparr>width = 1920, height = 1080, rotation = 0\<rparr>))
      (snd (effective_dims \<lparr>width = 1920, height = 1080, rotation = 0\<rparr>)) =
      Inr \<lparr>scale_filter = ''scale=w=1280:h=720:force_original_aspect_ratio=decrease,pad=1280:720:(ow-iw)/2:(oh-ih)/2:color=black'',
          target_w = 1280, target_h = 720\<rparr>"
    by (simp add: effective_dims_def plan_geometry_pad_landscape)
  have all: "progress_values (fst (run ''Keep Original (Pad)'' [?a, ?b, ?c])) = [33, 66, 100]"
    using a b c pa pb pc running
    by (simp add: run_def numeral_3_eq_3 [symmetric] progress_values_append)
  from progress_truncated_nondecreasing [OF pre running(2) m g] all b pb
  show ?thesis by simp
qed

text \<open>
  C3 as stated fails after the second of three files: line 112 gives 66 (index 1 of 3),
  where \<open>round(100\<cdot>2/3)\<close> is 67.
\<close>

theorem progress_not_rounded:
  "progress 1 3 = Inr 66 \<and> spec_progress 2 3 = 67"
proof
  show "progress 1 3 = Inr 66" by (rule progress_1_3)
  show "spec_progress 2 3 = 67" by (simp add: spec_progress_def round_def floor_eq_iff)
qed

text \<open>
  C9. \<^verbatim>\<open>finished\<close> is emitted by the last statement of \<^verbatim>\<open>run\<close>, after the loop, and
  nowhere else (\<open>run_finished_once\<close>): once, as the last event, unless an exception leaves
  the loop. In a crop mode line 86 divides by the effective height outside every
  \<^verbatim>\<open>try\<close>: for a probe that reports a video stream of height 0 the division raises, the
  run ends after the analysis of that file, and \<^verbatim>\<open>finished\<close> is not emitted. An encoder
  call whose output cannot be decoded is a second way out of the loop, in every mode;
  without either, the pad mode always ends with \<^verbatim>\<open>finished\<close> (\<open>run_pad_finishes\<close>).
\<close>

theorem zero_height_ends_run:
  "run ''Crop to 1:1 (Square)''
     [\<lparr>file_path = ''/v/a.mp4'', is_running = True,
       probe = \<lparr>returncode = 0, stderr = [],
                 stdout_json = Some (JObj [(''streams'',
                   JList [JObj [(''codec_type'', JStr ''video''), (''width'', JInt 0),
                                (''height'', JInt 0)]])])\<rparr>,
       pass_1 = Decoded \<lparr>returncode = 0, stderr = []\<rparr>,
       pass_2 = Decoded \<lparr>returncode = 0, stderr = []\<rparr>,
       existing_logs = []\<rparr>] =
   ([Update_status ''/v/a.mp4'' Analyzing,
     Subprocess_run [''ffprobe'', ''-v'', ''quiet'', ''-print_format'', ''json'',
                     ''-show_streams'', ''/v/a.mp4'']],
    Some ZeroDivisionError)"
  by (simp add: run_def process_file_def Let_def get_video_metadata_def read_metadata_def
      find_video_stream_def stream_metadata_def rotate_tag_def raising_def effective_dims_def
      plan_geometry_def map_of_1_1 int_truediv_def ffprobe_command_def)

end
